theory Spec2Isabelle
  imports Main
begin

section \<open>Strings, dates and the date normaliser\<close>

text \<open>
  A Python \<open>str\<close> is a sequence of code points, so it is modelled as a list of
  integers. \<open>of_ascii\<close> reads an ASCII literal; the three CJK markers of the
  localized date format and the header word looked for in a detail page are given by
  their code points.
\<close>

type_synonym pystr = "int list"

definition of_ascii :: "string \<Rightarrow> pystr" where
  "of_ascii s = map of_char s"

definition cp_nen :: int where "cp_nen = 24180"     \<comment> \<open>U+5E74, the year marker\<close>
definition cp_gatsu :: int where "cp_gatsu = 26376" \<comment> \<open>U+6708, the month marker\<close>
definition cp_nichi :: int where "cp_nichi = 26085" \<comment> \<open>U+65E5, the day marker\<close>

definition song_title_header :: pystr where
  "song_title_header = [26989, 26354, 21517]"       \<comment> \<open>U+697D U+66F2 U+540D\<close>

datatype exn = ValueError | FetchError | DbError

datatype date = Date (year: int) (month: int) (day: int)

text \<open>\<open>str.strip()\<close>: the white space of Python's \<open>str.isspace\<close>.\<close>

definition is_space :: "int \<Rightarrow> bool" where
  "is_space c \<longleftrightarrow> (9 \<le> c \<and> c \<le> 13) \<or> (28 \<le> c \<and> c \<le> 32) \<or> c = 133 \<or> c = 160
     \<or> c = 5760 \<or> (8192 \<le> c \<and> c \<le> 8202) \<or> c = 8232 \<or> c = 8233 \<or> c = 8239
     \<or> c = 8287 \<or> c = 12288"

definition strip :: "pystr \<Rightarrow> pystr" where
  "strip s = rev (dropWhile is_space (rev (dropWhile is_space s)))"

text \<open>
  \<open>\d\<close> in a pattern over \<open>str\<close>, and \<open>int()\<close>, take every Unicode decimal digit
  (category \<open>Nd\<close>), not only the ASCII ones. These digits come in runs of ten
  consecutive code points, one run for each script, the digits 0 to 9 in order;
  \<open>digit_zeros\<close> lists the first code point of each run (Unicode 14.0, the table of
  Python 3.11). A bracketed class such as \<open>[1-9]\<close> takes ASCII digits only: that is
  \<open>in_range\<close> below.
\<close>

definition digit_zeros :: "int list" where
  "digit_zeros =
     [48, 1632, 1776, 1984, 2406, 2534, 2662, 2790, 2918, 3046, 3174, 3302, 3430, 3558,
      3664, 3792, 3872, 4160, 4240, 6112, 6160, 6470, 6608, 6784, 6800, 6992, 7088, 7232,
      7248, 42528, 43216, 43264, 43472, 43504, 43600, 44016, 65296, 66720, 68912, 69734,
      69872, 69942, 70096, 70384, 70736, 70864, 71248, 71360, 71472, 71904, 72016, 72784,
      73040, 73120, 92768, 92864, 93008, 120782, 120792, 120802, 120812, 120822, 123200,
      123632, 125264, 130032]"

definition digit_zero :: "int \<Rightarrow> int option" where
  "digit_zero c = find (\<lambda>z. z \<le> c \<and> c \<le> z + 9) digit_zeros"

definition is_digit :: "int \<Rightarrow> bool" where
  "is_digit c \<longleftrightarrow> digit_zero c \<noteq> None"

definition digit_val :: "int \<Rightarrow> int" where
  "digit_val c = (case digit_zero c of Some z \<Rightarrow> c - z | None \<Rightarrow> 0)"

definition in_range :: "int \<Rightarrow> int \<Rightarrow> int \<Rightarrow> bool" where
  "in_range lo hi c \<longleftrightarrow> lo \<le> c \<and> c \<le> hi"

text \<open>The constructor of \<open>datetime\<close>/\<open>date\<close>: a \<open>ValueError\<close> outside the calendar.\<close>

definition is_leap :: "int \<Rightarrow> bool" where
  "is_leap y \<longleftrightarrow> y mod 4 = 0 \<and> (y mod 100 \<noteq> 0 \<or> y mod 400 = 0)"

definition days_in_month :: "int \<Rightarrow> int \<Rightarrow> int" where
  "days_in_month y m =
     (if m = 2 then (if is_leap y then 29 else 28)
      else if m = 4 \<or> m = 6 \<or> m = 9 \<or> m = 11 then 30 else 31)"

definition make_date :: "int \<Rightarrow> int \<Rightarrow> int \<Rightarrow> exn + date" where
  "make_date y m d =
     (if 1 \<le> y \<and> y \<le> 9999 \<and> 1 \<le> m \<and> m \<le> 12 \<and> 1 \<le> d \<and> d \<le> days_in_month y m
      then Inr (Date y m d) else Inl ValueError)"

subsection \<open>\<open>datetime.strptime\<close> for the directives the source uses\<close>

text \<open>
  \<open>strptime\<close> turns the format into a regular expression and matches it at the start
  of the text: \<open>%Y\<close> is four digits, \<open>%m\<close> is \<open>1[0-2]|0[1-9]|[1-9]\<close>, \<open>%d\<close> is
  \<open>3[0-1]|[1-2]\d|0[1-9]|[1-9]| [1-9]\<close>, any other character stands for itself.
  An alternation is tried left to right with backtracking, so a directive yields its
  possible readings in that order and the first one the rest of the format accepts wins.
  Text left over after the match, and a date outside the calendar, are a \<open>ValueError\<close>.
\<close>

datatype fmt_item = FY | Fm | Fd | Lit int

fun year_alts :: "pystr \<Rightarrow> (int \<times> pystr) list" where
  "year_alts (a # b # c # d # r) =
     (if is_digit a \<and> is_digit b \<and> is_digit c \<and> is_digit d
      then [(1000 * digit_val a + 100 * digit_val b + 10 * digit_val c + digit_val d, r)]
      else [])"
| "year_alts _ = []"

definition two_digits :: "int \<Rightarrow> int \<Rightarrow> int \<Rightarrow> pystr \<Rightarrow> (int \<times> pystr) list" where
  "two_digits a lo hi s =
     (case s of
        x # y # r \<Rightarrow> (if x = a \<and> in_range lo hi y then [(10 * digit_val x + digit_val y, r)] else [])
      | _ \<Rightarrow> [])"

definition two_digits_range :: "int \<Rightarrow> int \<Rightarrow> pystr \<Rightarrow> (int \<times> pystr) list" where
  "two_digits_range lo hi s =
     (case s of
        x # y # r \<Rightarrow> (if in_range lo hi x \<and> is_digit y then [(10 * digit_val x + digit_val y, r)] else [])
      | _ \<Rightarrow> [])"

definition one_digit :: "pystr \<Rightarrow> (int \<times> pystr) list" where
  "one_digit s = (case s of x # r \<Rightarrow> (if in_range 49 57 x then [(digit_val x, r)] else []) | _ \<Rightarrow> [])"

definition space_digit :: "pystr \<Rightarrow> (int \<times> pystr) list" where
  "space_digit s =
     (case s of x # y # r \<Rightarrow> (if x = 32 \<and> in_range 49 57 y then [(digit_val y, r)] else []) | _ \<Rightarrow> [])"

definition month_alts :: "pystr \<Rightarrow> (int \<times> pystr) list" where
  "month_alts s = two_digits 49 48 50 s @ two_digits 48 49 57 s @ one_digit s"

definition day_alts :: "pystr \<Rightarrow> (int \<times> pystr) list" where
  "day_alts s = two_digits 51 48 49 s @ two_digits_range 49 50 s @ two_digits 48 49 57 s
                @ one_digit s @ space_digit s"

record ymd =
  got_year :: int
  got_month :: int
  got_day :: int

fun first_some :: "('a \<Rightarrow> 'b option) \<Rightarrow> 'a list \<Rightarrow> 'b option" where
  "first_some f [] = None"
| "first_some f (x # xs) = (case f x of Some y \<Rightarrow> Some y | None \<Rightarrow> first_some f xs)"

fun match_fmt :: "fmt_item list \<Rightarrow> pystr \<Rightarrow> ymd \<Rightarrow> (ymd \<times> pystr) option" where
  "match_fmt [] s acc = Some (acc, s)"
| "match_fmt (Lit c # fs) s acc =
     (case s of [] \<Rightarrow> None | x # r \<Rightarrow> (if x = c then match_fmt fs r acc else None))"
| "match_fmt (FY # fs) s acc =
     first_some (\<lambda>(v, r). match_fmt fs r (acc\<lparr>got_year := v\<rparr>)) (year_alts s)"
| "match_fmt (Fm # fs) s acc =
     first_some (\<lambda>(v, r). match_fmt fs r (acc\<lparr>got_month := v\<rparr>)) (month_alts s)"
| "match_fmt (Fd # fs) s acc =
     first_some (\<lambda>(v, r). match_fmt fs r (acc\<lparr>got_day := v\<rparr>)) (day_alts s)"

definition strptime_date :: "pystr \<Rightarrow> fmt_item list \<Rightarrow> exn + date" where
  "strptime_date s fmt =
     (case match_fmt fmt s \<lparr>got_year = 1900, got_month = 1, got_day = 1\<rparr> of
        None \<Rightarrow> Inl ValueError
      | Some (r, rest) \<Rightarrow>
          (if rest \<noteq> [] then Inl ValueError
           else make_date (got_year r) (got_month r) (got_day r)))"

definition fmt_dash :: "fmt_item list" where
  "fmt_dash = [FY, Lit 45, Fm, Lit 45, Fd]"

definition fmt_kanji :: "fmt_item list" where
  "fmt_kanji = [FY, Lit cp_nen, Fm, Lit cp_gatsu, Fd, Lit cp_nichi]"

definition fmt_slash :: "fmt_item list" where
  "fmt_slash = [FY, Lit 47, Fm, Lit 47, Fd]"

subsection \<open>The permissive pattern\<close>

text \<open>
  \<open>re.search(r'(\d{4})[^\d]*(\d{1,2})[^\d]*(\d{1,2})', date_str)\<close>: the leftmost
  position where the pattern matches. After the four digits of the year all following
  non-digits are taken (giving some back never helps: a digit must follow). The month
  takes two digits when it can and falls back to one when the day then finds no digit;
  the day takes two digits when it can.
\<close>

definition day_greedy :: "pystr \<Rightarrow> int option" where
  "day_greedy s =
     (case s of
        [] \<Rightarrow> None
      | x # r \<Rightarrow>
          (if \<not> is_digit x then None
           else (case r of
                   y # _ \<Rightarrow> (if is_digit y then Some (10 * digit_val x + digit_val y)
                             else Some (digit_val x))
                 | [] \<Rightarrow> Some (digit_val x))))"

definition month_then_day :: "pystr \<Rightarrow> (int \<times> int) option" where
  "month_then_day s =
     (case s of
        [] \<Rightarrow> None
      | x # r \<Rightarrow>
          (if \<not> is_digit x then None
           else
             (let one = (case day_greedy (dropWhile (\<lambda>c. \<not> is_digit c) r) of
                           Some d \<Rightarrow> Some (digit_val x, d) | None \<Rightarrow> None)
              in case r of
                   y # r' \<Rightarrow>
                     (if is_digit y
                      then (case day_greedy (dropWhile (\<lambda>c. \<not> is_digit c) r') of
                              Some d \<Rightarrow> Some (10 * digit_val x + digit_val y, d)
                            | None \<Rightarrow> one)
                      else one)
                 | [] \<Rightarrow> one)))"

definition match_here :: "pystr \<Rightarrow> (int \<times> int \<times> int) option" where
  "match_here s =
     (case year_alts s of
        [] \<Rightarrow> None
      | (y, r) # _ \<Rightarrow>
          (case month_then_day (dropWhile (\<lambda>c. \<not> is_digit c) r) of
             Some (m, d) \<Rightarrow> Some (y, m, d)
           | None \<Rightarrow> None))"

fun re_search :: "pystr \<Rightarrow> (int \<times> int \<times> int) option" where
  "re_search [] = None"
| "re_search (c # cs) =
     (case match_here (c # cs) of Some g \<Rightarrow> Some g | None \<Rightarrow> re_search cs)"

subsection \<open>\<open>parse_date\<close>\<close>

text \<open>
  The body of the outer \<open>try\<close>: the three formats in order, a \<open>ValueError\<close> of one
  moving on to the next, then the permissive pattern, whose \<open>datetime(...)\<close> may raise.
  \<open>parse_date\<close> is the body under \<open>except Exception\<close>, which returns \<open>None\<close>.
\<close>

fun try_formats :: "pystr \<Rightarrow> fmt_item list list \<Rightarrow> date option" where
  "try_formats s [] = None"
| "try_formats s (fmt # fmts) =
     (case strptime_date (strip s) fmt of Inr d \<Rightarrow> Some d | Inl _ \<Rightarrow> try_formats s fmts)"

definition parse_date_body :: "pystr \<Rightarrow> exn + date option" where
  "parse_date_body date_str =
     (case try_formats date_str [fmt_dash, fmt_kanji, fmt_slash] of
        Some d \<Rightarrow> Inr (Some d)
      | None \<Rightarrow>
          (case re_search date_str of
             Some (y, m, d) \<Rightarrow>
               (case make_date y m d of Inr dt \<Rightarrow> Inr (Some dt) | Inl e \<Rightarrow> Inl e)
           | None \<Rightarrow> Inr None))"

definition parse_date :: "pystr \<Rightarrow> date option" where
  "parse_date date_str =
     (case parse_date_body date_str of Inr r \<Rightarrow> r | Inl _ \<Rightarrow> None)"

section \<open>The scraped pages\<close>

text \<open>
  What the source reads of a parsed page: of a cell (\<open>td\<close>) its stripped text and its
  first link (\<open>find('a')\<close>), of a link its stripped text and its \<open>href\<close>, of a table
  the texts of its header cells and its rows (\<open>find_all('tr')\<close>), of a page its tables of
  class \<open>table-fixed\<close> in document order. A page that cannot be fetched or parsed is an
  exception. \<open>urljoin\<close> stands for \<open>urljoin(base_url, href)\<close>.
\<close>

record link =
  link_text :: pystr
  link_href :: "pystr option"

record cell =
  cell_text :: pystr
  cell_link :: "link option"

type_synonym row = "cell list"

record table =
  th_texts :: "pystr list"
  trs :: "row list"

record env =
  index_page :: "exn + table list"
  detail_page :: "pystr \<Rightarrow> exn + table list"
  urljoin :: "pystr \<Rightarrow> pystr"

record live_data =
  show_date :: date
  performance_name :: pystr
  venue :: pystr
  url :: "pystr option"

record song_info =
  name :: pystr
  song_url :: pystr
  remark :: "pystr option"

text \<open>\<open>link and link.get('href')\<close>: the link's text and target when both are there.\<close>

definition song_link :: "cell \<Rightarrow> (pystr \<times> pystr) option" where
  "song_link c =
     (case cell_link c of
        None \<Rightarrow> None
      | Some l \<Rightarrow>
          (case link_href l of
             None \<Rightarrow> None
           | Some h \<Rightarrow> (if h = [] then None else Some (link_text l, h))))"

subsection \<open>\<open>get_live_history\<close>\<close>

fun history_rows :: "env \<Rightarrow> row list \<Rightarrow> live_data list" where
  "history_rows env [] = []"
| "history_rows env (cells # rows) =
     (if 3 \<le> length cells then
        (let date_str = cell_text (cells ! 0);
             detail_url = (case song_link (cells ! 1) of
                             Some (_, h) \<Rightarrow> Some (urljoin env h) | None \<Rightarrow> None)
         in case parse_date date_str of
              Some parsed_date \<Rightarrow>
                \<lparr>show_date = parsed_date, performance_name = cell_text (cells ! 1),
                 venue = cell_text (cells ! 2), url = detail_url\<rparr> # history_rows env rows
            | None \<Rightarrow> history_rows env rows)
      else history_rows env rows)"


subsection \<open>\<open>get_songs_from_detail_page\<close>\<close>

definition remark_sep :: pystr where
  "remark_sep = [59, 32]"     \<comment> \<open>a semicolon and a space\<close>

text \<open>
  The remark branch of the row loop: \<open>songs_with_info[last_song_index]\<close> gets the text,
  after the separator when it already has a remark.
\<close>

definition add_remark :: "pystr \<Rightarrow> song_info list \<Rightarrow> int \<Rightarrow> song_info list" where
  "add_remark remark_text songs last_song_index =
     (if remark_text \<noteq> [] \<and> 0 \<le> last_song_index then
        (let i = nat last_song_index; cur = songs ! i in
         case remark cur of
           None \<Rightarrow> songs[i := cur\<lparr>remark := Some remark_text\<rparr>]
         | Some r \<Rightarrow>
             (if r \<noteq> [] then songs[i := cur\<lparr>remark := Some (r @ remark_sep @ remark_text)\<rparr>]
              else songs[i := cur\<lparr>remark := Some remark_text\<rparr>]))
      else songs)"

fun scan_rows :: "env \<Rightarrow> row list \<Rightarrow> song_info list \<Rightarrow> int \<Rightarrow> song_info list" where
  "scan_rows env [] songs last_song_index = songs"
| "scan_rows env (cells # rows) songs last_song_index =
     (if 2 \<le> length cells then
        (case song_link (cells ! 1) of
           Some (song_name, href) \<Rightarrow>
             (let songs' = songs @ [\<lparr>name = song_name, song_url = urljoin env href, remark = None\<rparr>]
              in scan_rows env rows songs' (int (length songs') - 1))
         | None \<Rightarrow>
             scan_rows env rows (add_remark (cell_text (cells ! 1)) songs last_song_index)
               last_song_index)
      else scan_rows env rows songs last_song_index)"

fun contains :: "pystr \<Rightarrow> pystr \<Rightarrow> bool" where
  "contains xs [] = (xs = [])"
| "contains xs (y # ys) = (take (length xs) (y # ys) = xs \<or> contains xs ys)"

definition has_song_header :: "table \<Rightarrow> bool" where
  "has_song_header t = list_ex (contains song_title_header) (th_texts t)"

definition get_songs_from_detail_page :: "env \<Rightarrow> pystr option \<Rightarrow> song_info list" where
  "get_songs_from_detail_page env u =
     (case u of
        None \<Rightarrow> []
      | Some detail_url \<Rightarrow>
          (if detail_url = [] then []
           else (case detail_page env detail_url of
                   Inl e \<Rightarrow> []
                 | Inr tables \<Rightarrow>
                     (case find has_song_header tables of
                        None \<Rightarrow> []
                      | Some t \<Rightarrow> scan_rows env (drop 1 (trs t)) [] (- 1)))))"

section \<open>The store, the cache and the three save operations\<close>

text \<open>
  The three tables. The schema is not among the sources; from the statements of the
  source, \<open>live_history\<close> is unique on \<open>(date, performance_name)\<close>, \<open>live_song\<close> on
  \<open>name\<close> and \<open>live_history_song\<close> on \<open>(live_history_id, live_song_id)\<close> (the targets
  of \<open>ON CONFLICT\<close>), so each table is a map from its key to the other columns. The
  \<open>id\<close> of a new row comes from a counter of its table, which an executed \<open>INSERT\<close>
  advances and a rollback does not restore.
\<close>

type_synonym show_key = "date \<times> pystr"

record db =
  live_history :: "show_key \<rightharpoonup> (int \<times> pystr \<times> pystr option)"
  live_history_seq :: int
  live_song :: "pystr \<rightharpoonup> (int \<times> pystr option)"
  live_song_seq :: int
  live_history_song :: "(int \<times> int) \<rightharpoonup> (int \<times> pystr option)"

text \<open>
  What can go wrong with one call of a save operation: the connection is refused
  (raised before the \<open>try\<close>, so it leaves the operation), statement \<open>k\<close> of the call
  raises, or the commit raises.
\<close>

datatype fault = NoFault | ConnectFails | ExecuteFails nat | CommitFails

datatype event = EntryBegin nat | Sleep

record state =
  store :: db
  song_cache :: "pystr \<rightharpoonup> int"
  trace :: "event list"

datatype outcome = Completed state | Raised exn state

definition rollback :: "db \<Rightarrow> db \<Rightarrow> db" where
  "rollback before after =
     before\<lparr>live_history_seq := live_history_seq after, live_song_seq := live_song_seq after\<rparr>"

text \<open>\<open>INSERT INTO live_history ... ON CONFLICT (date, performance_name) DO UPDATE ... RETURNING id\<close>\<close>

definition insert_show :: "live_data \<Rightarrow> db \<Rightarrow> int \<times> db" where
  "insert_show e d =
     (let k = (show_date e, performance_name e);
          sid = (case live_history d k of Some (i, _) \<Rightarrow> i | None \<Rightarrow> live_history_seq d)
      in (sid, d\<lparr>live_history := (live_history d)(k \<mapsto> (sid, venue e, url e)),
                 live_history_seq := live_history_seq d + 1\<rparr>))"

definition save_live_history :: "fault \<Rightarrow> live_data \<Rightarrow> db \<Rightarrow> (exn + int option) \<times> db" where
  "save_live_history f e d =
     (if f = ConnectFails then (Inl DbError, d)
      else if f = ExecuteFails 0 then (Inr None, d)
      else (let (sid, d') = insert_show e d in
            if f = CommitFails then (Inr None, rollback d d') else (Inr (Some sid), d')))"

text \<open>\<open>INSERT INTO live_song ... ON CONFLICT (name) DO UPDATE SET song_url = ... RETURNING id\<close>\<close>

definition insert_song :: "pystr \<Rightarrow> pystr option \<Rightarrow> db \<Rightarrow> int \<times> db" where
  "insert_song n u d =
     (let sid = (case live_song d n of Some (i, _) \<Rightarrow> i | None \<Rightarrow> live_song_seq d)
      in (sid, d\<lparr>live_song := (live_song d)(n \<mapsto> (sid, u)),
                 live_song_seq := live_song_seq d + 1\<rparr>))"

definition save_song :: "fault \<Rightarrow> pystr \<Rightarrow> pystr option \<Rightarrow> state \<Rightarrow> (exn + int option) \<times> state" where
  "save_song f n u st =
     (case song_cache st n of
        Some i \<Rightarrow> (Inr (Some i), st)
      | None \<Rightarrow>
          (if f = ConnectFails then (Inl DbError, st)
           else if f = ExecuteFails 0 then (Inr None, st)
           else (let (sid, d') = insert_song n u (store st);
                     st1 = (if sid \<noteq> 0 then st\<lparr>song_cache := (song_cache st)(n \<mapsto> sid)\<rparr> else st)
                 in if f = CommitFails then (Inr None, st1\<lparr>store := rollback (store st) d'\<rparr>)
                    else (Inr (Some sid), st1\<lparr>store := d'\<rparr>))))"

text \<open>The rows of the batch: \<open>enumerate(songs_with_info, 1)\<close>, kept when the cache has a
  truthy id for the name.\<close>

fun relations_from :: "(pystr \<rightharpoonup> int) \<Rightarrow> int \<Rightarrow> int \<Rightarrow> song_info list
    \<Rightarrow> (int \<times> int \<times> int \<times> pystr option) list" where
  "relations_from c lid order [] = []"
| "relations_from c lid order (s # ss) =
     (case c (name s) of
        Some sid \<Rightarrow>
          (if sid \<noteq> 0 then (lid, sid, order, remark s) # relations_from c lid (order + 1) ss
           else relations_from c lid (order + 1) ss)
      | None \<Rightarrow> relations_from c lid (order + 1) ss)"

definition relations_data :: "(pystr \<rightharpoonup> int) \<Rightarrow> int \<Rightarrow> song_info list
    \<Rightarrow> (int \<times> int \<times> int \<times> pystr option) list" where
  "relations_data c lid songs = relations_from c lid 1 songs"

text \<open>\<open>INSERT INTO live_history_song ... ON CONFLICT (live_history_id, live_song_id) DO UPDATE\<close>\<close>

definition insert_relation :: "(int \<times> int \<times> int \<times> pystr option)
    \<Rightarrow> ((int \<times> int) \<rightharpoonup> (int \<times> pystr option)) \<Rightarrow> ((int \<times> int) \<rightharpoonup> (int \<times> pystr option))" where
  "insert_relation r t = (case r of (lid, sid, order, rem) \<Rightarrow> t((lid, sid) \<mapsto> (order, rem)))"

text \<open>\<open>executemany\<close>: one statement per row, in order, inside the transaction.\<close>

fun executemany :: "fault \<Rightarrow> nat \<Rightarrow> (int \<times> int \<times> int \<times> pystr option) list
    \<Rightarrow> ((int \<times> int) \<rightharpoonup> (int \<times> pystr option)) \<Rightarrow> exn + ((int \<times> int) \<rightharpoonup> (int \<times> pystr option))" where
  "executemany f k [] t = Inr t"
| "executemany f k (r # rs) t =
     (if f = ExecuteFails k then Inl DbError else executemany f (Suc k) rs (insert_relation r t))"

definition save_live_song_relations_batch :: "fault \<Rightarrow> int \<Rightarrow> song_info list \<Rightarrow> state
    \<Rightarrow> exn option \<times> state" where
  "save_live_song_relations_batch f live_history_id songs st =
     (if songs = [] then (None, st)
      else if f = ConnectFails then (Some DbError, st)
      else (let relations = relations_data (song_cache st) live_history_id songs in
            if relations = [] then (None, st)
            else (case executemany f 0 relations (live_history_song (store st)) of
                    Inl e \<Rightarrow> (None, st)
                  | Inr t \<Rightarrow>
                      (if f = CommitFails then (None, st)
                       else (None, st\<lparr>store := (store st)\<lparr>live_history_song := t\<rparr>\<rparr>)))))"

section \<open>The crawl\<close>

text \<open>
  Every call of a save operation in a run is named by the entry it belongs to and, for a
  song, by the song's place in the setlist; a fault plan says what goes wrong with it.
\<close>

datatype dbop = OpLoad | OpShow nat | OpSong nat nat | OpBatch nat

type_synonym fault_plan = "dbop \<Rightarrow> fault"

definition no_faults :: fault_plan where
  "no_faults = (\<lambda>_. NoFault)"


fun save_new_songs :: "fault_plan \<Rightarrow> nat \<Rightarrow> nat \<Rightarrow> song_info list \<Rightarrow> state \<Rightarrow> exn option \<times> state" where
  "save_new_songs fp i j [] st = (None, st)"
| "save_new_songs fp i j (s # ss) st =
     (if song_cache st (name s) \<noteq> None then save_new_songs fp i (Suc j) ss st
      else (case save_song (fp (OpSong i j)) (name s) (Some (song_url s)) st of
              (Inl e, st') \<Rightarrow> (Some e, st')
            | (Inr _, st') \<Rightarrow> save_new_songs fp i (Suc j) ss st'))"

definition log_event :: "event \<Rightarrow> state \<Rightarrow> state" where
  "log_event ev st = st\<lparr>trace := trace st @ [ev]\<rparr>"

definition truthy_id :: "int option \<Rightarrow> bool" where
  "truthy_id r = (case r of None \<Rightarrow> False | Some i \<Rightarrow> i \<noteq> 0)"

text \<open>One turn of the loop of \<open>run\<close>.\<close>

definition process_entry :: "fault_plan \<Rightarrow> env \<Rightarrow> nat \<Rightarrow> live_data \<Rightarrow> state \<Rightarrow> outcome" where
  "process_entry fp env i live st0 =
     (let st = log_event (EntryBegin i) st0 in
      case save_live_history (fp (OpShow i)) live (store st) of
        (Inl e, d) \<Rightarrow> Raised e (st\<lparr>store := d\<rparr>)
      | (Inr r, d) \<Rightarrow>
          (let st1 = st\<lparr>store := d\<rparr> in
           if \<not> truthy_id r then Completed st1
           else
             (let songs = get_songs_from_detail_page env (url live) in
              if songs = [] then Completed (log_event Sleep st1)
              else
                (case save_new_songs fp i 0 songs st1 of
                   (Some e, st2) \<Rightarrow> Raised e st2
                 | (None, st2) \<Rightarrow>
                     (case save_live_song_relations_batch (fp (OpBatch i)) (the r) songs st2 of
                        (Some e, st3) \<Rightarrow> Raised e st3
                      | (None, st3) \<Rightarrow> Completed (log_event Sleep st3))))))"

fun run_loop :: "fault_plan \<Rightarrow> env \<Rightarrow> nat \<Rightarrow> live_data list \<Rightarrow> state \<Rightarrow> outcome" where
  "run_loop fp env i [] st = Completed st"
| "run_loop fp env i (live # rest) st =
     (case process_entry fp env i live st of
        Raised e st' \<Rightarrow> Raised e st'
      | Completed st' \<Rightarrow> run_loop fp env (Suc i) rest st')"



definition final_state :: "outcome \<Rightarrow> state" where
  "final_state out = (case out of Completed st \<Rightarrow> st | Raised _ st \<Rightarrow> st)"

section \<open>Notions used to state the properties\<close>

text \<open>The setlist read from the body rows of a song table, as the row loop starts it.\<close>

definition extracted :: "env \<Rightarrow> row list \<Rightarrow> song_info list" where
  "extracted env rows = scan_rows env rows [] (- 1)"

text \<open>A song row: a second cell with a link that has a target.\<close>

definition is_song_row :: "row \<Rightarrow> bool" where
  "is_song_row cells \<longleftrightarrow> 2 \<le> length cells \<and> song_link (cells ! 1) \<noteq> None"

text \<open>
  The texts that a run of rows hands to the remark branch of the row loop: of each row
  with two cells or more the text of the second cell, when it is not empty.
\<close>

definition remark_texts :: "row list \<Rightarrow> pystr list" where
  "remark_texts rows =
     filter (\<lambda>t. t \<noteq> []) (map (\<lambda>cells. cell_text (cells ! 1)) (filter (\<lambda>cells. 2 \<le> length cells) rows))"

text \<open>
  The remark that results from joining texts, in order, onto the remark \<open>r\<close>: the
  first text alone when there is no remark yet, the separator and the text after
  the remark otherwise.
\<close>

fun join_onto :: "pystr option \<Rightarrow> pystr list \<Rightarrow> pystr option" where
  "join_onto r [] = r"
| "join_onto r (t # ts) =
     join_onto (Some (case r of None \<Rightarrow> t | Some a \<Rightarrow> a @ remark_sep @ t)) ts"

text \<open>Whether a fault strikes a call that executes \<open>n\<close> statements and then commits.\<close>

definition fault_hits :: "fault \<Rightarrow> nat \<Rightarrow> bool" where
  "fault_hits f n =
     (case f of NoFault \<Rightarrow> False | ConnectFails \<Rightarrow> True | ExecuteFails k \<Rightarrow> k < n
      | CommitFails \<Rightarrow> True)"

text \<open>The name a song row gives: the text of the link in its second cell.\<close>

definition song_row_name :: "row \<Rightarrow> pystr" where
  "song_row_name cells = fst (the (song_link (cells ! 1)))"

text \<open>
  For the runs that meet no fault: the key of an entry's show, the id a state has for a
  show, the setlist of an entry, and the agreement of the cache with the song table that
  such runs keep (the counter of \<open>live_song\<close> is positive, as a sequence starting at 1 is).
\<close>

definition show_key :: "live_data \<Rightarrow> show_key" where
  "show_key e = (show_date e, performance_name e)"



definition cache_inv :: "state \<Rightarrow> bool" where
  "cache_inv st \<longleftrightarrow>
     0 < live_song_seq (store st) \<and> song_cache st = (\<lambda>n. map_option fst (live_song (store st) n))"






text \<open>The contents of the three tables (the counters are not rows).\<close>

definition tables :: "db \<Rightarrow> (show_key \<rightharpoonup> (int \<times> pystr \<times> pystr option)) \<times> (pystr \<rightharpoonup> (int \<times> pystr option))
    \<times> ((int \<times> int) \<rightharpoonup> (int \<times> pystr option))" where
  "tables d = (live_history d, live_song d, live_history_song d)"





section \<open>Example inputs\<close>

definition env0 :: env where
  "env0 = \<lparr>index_page = Inr [], detail_page = (\<lambda>_. Inl FetchError), urljoin = (\<lambda>h. h)\<rparr>"

definition tbd_row :: row where
  "tbd_row = [\<lparr>cell_text = of_ascii ''TBD'', cell_link = None\<rparr>,
              \<lparr>cell_text = of_ascii ''Live'', cell_link = None\<rparr>,
              \<lparr>cell_text = of_ascii ''Hall'', cell_link = None\<rparr>]"

definition row_a :: row where
  "row_a = [\<lparr>cell_text = of_ascii ''1'', cell_link = None\<rparr>,
            \<lparr>cell_text = of_ascii ''A'',
             cell_link = Some \<lparr>link_text = of_ascii ''A'', link_href = Some (of_ascii ''/song/a'')\<rparr>\<rparr>]"

definition remark_row :: "pystr \<Rightarrow> row" where
  "remark_row t = [\<lparr>cell_text = [], cell_link = None\<rparr>, \<lparr>cell_text = t, cell_link = None\<rparr>]"

definition song_row :: "pystr \<Rightarrow> pystr \<Rightarrow> row" where
  "song_row n h = [\<lparr>cell_text = [], cell_link = None\<rparr>,
                   \<lparr>cell_text = n, cell_link = Some \<lparr>link_text = n, link_href = Some h\<rparr>\<rparr>]"

definition song_ab :: "song_info list" where
  "song_ab = [\<lparr>name = of_ascii ''A'', song_url = of_ascii ''/song/a'', remark = None\<rparr>,
              \<lparr>name = of_ascii ''B'', song_url = of_ascii ''/song/b'', remark = None\<rparr>,
              \<lparr>name = of_ascii ''C'', song_url = of_ascii ''/song/c'', remark = None\<rparr>]"

definition empty_db :: db where
  "empty_db = \<lparr>live_history = Map.empty, live_history_seq = 1, live_song = Map.empty,
               live_song_seq = 1, live_history_song = Map.empty\<rparr>"

definition st_ac :: state where
  "st_ac = \<lparr>store = empty_db,
            song_cache = [of_ascii ''A'' \<mapsto> 1, of_ascii ''C'' \<mapsto> 3], trace = []\<rparr>"

definition row_b :: row where
  "row_b = [\<lparr>cell_text = of_ascii ''2'', cell_link = None\<rparr>,
            \<lparr>cell_text = of_ascii ''B'',
             cell_link = Some \<lparr>link_text = of_ascii ''B'', link_href = Some (of_ascii ''/song/b'')\<rparr>\<rparr>]"

definition st_ab :: state where
  "st_ab = \<lparr>store = empty_db,
            song_cache = [of_ascii ''A'' \<mapsto> 1, of_ascii ''B'' \<mapsto> 2], trace = []\<rparr>"

definition st_empty :: state where
  "st_empty = \<lparr>store = empty_db, song_cache = Map.empty, trace = []\<rparr>"

definition st_known :: state where
  "st_known = \<lparr>store = empty_db\<lparr>live_song := [of_ascii ''A'' \<mapsto> (1, Some (of_ascii ''/song/a''))],
                                   live_song_seq := 2\<rparr>,
               song_cache = [of_ascii ''A'' \<mapsto> 1], trace = []\<rparr>"

definition st_unloaded :: state where
  "st_unloaded = st_known\<lparr>song_cache := Map.empty\<rparr>"

definition live1 :: live_data where
  "live1 = \<lparr>show_date = Date 2024 5 1, performance_name = of_ascii ''Live 1'',
            venue = of_ascii ''Hall'', url = Some (of_ascii ''/live/1'')\<rparr>"

definition live2 :: live_data where
  "live2 = \<lparr>show_date = Date 2024 5 2, performance_name = of_ascii ''Live 2'',
            venue = of_ascii ''Hall'', url = Some (of_ascii ''/live/2'')\<rparr>"

definition first_show_fails :: fault_plan where
  "first_show_fails = (\<lambda>op. if op = OpShow 0 then ExecuteFails 0 else NoFault)"





section \<open>Properties\<close>

subsection \<open>The date normaliser and the list parser\<close>

lemma history_rows_append:
  "history_rows env (pre @ post) = history_rows env pre @ history_rows env post"
  by (induction pre) (auto simp: Let_def split: option.splits)

lemma history_rows_dropped:
  "parse_date (cell_text (cells ! 0)) = None \<Longrightarrow> history_rows env [cells] = []"
  by (simp add: Let_def)

lemma parse_dash: "parse_date (of_ascii ''2024-05-01'') = Some (Date 2024 5 1)"
  by code_simp

lemma parse_kanji:
  "parse_date (of_ascii ''2024'' @ [cp_nen] @ of_ascii ''05'' @ [cp_gatsu] @ of_ascii ''01'' @ [cp_nichi])
     = Some (Date 2024 5 1)"
  by code_simp

lemma parse_slash: "parse_date (of_ascii ''2024/05/01'') = Some (Date 2024 5 1)"
  by code_simp

lemma parse_tbd: "parse_date (of_ascii ''TBD'') = None"
  by code_simp

text \<open>
  Digits of another script: with the full-width digits U+FF15 and U+FF11 for the month
  and the day, no format accepts the text (\<open>%m\<close> and \<open>%d\<close> want ASCII digits there)
  and the permissive pattern reads the date; full-width digits in the year are
  accepted by \<open>%Y\<close>.
\<close>

lemma parse_fullwidth:
  "try_formats (of_ascii ''2024'' @ [cp_nen, 65301, cp_gatsu, 65297, cp_nichi])
      [fmt_dash, fmt_kanji, fmt_slash] = None"
  "parse_date (of_ascii ''2024'' @ [cp_nen, 65301, cp_gatsu, 65297, cp_nichi]) = Some (Date 2024 5 1)"
  "strptime_date ([65298, 65296, 65298, 65300] @ of_ascii ''-05-01'') fmt_dash = Inr (Date 2024 5 1)"
  "strptime_date (of_ascii ''2024-05-'' @ [65298, 53]) fmt_dash = Inl ValueError"
  "parse_date (of_ascii ''2024-05-'' @ [65298, 53]) = Some (Date 2024 5 25)"
  by code_simp+

text \<open>
  Claim C9. The three spellings of 1 May 2024 (with dashes, with the year, month and day
  markers, with slashes) are read as the same date. \<open>TBD\<close> gives no date. Whenever the
  body of \<open>parse_date\<close> raises, and whenever neither a format nor the permissive pattern
  finds a date, \<open>parse_date\<close> returns the no-date value: nothing leaves the function but
  a date or \<open>None\<close>. A list row whose date text gives no date adds no entry to the list
  of \<open>get_live_history\<close>: the list is the one of the other rows.
\<close>

theorem date_normalizer:
  "parse_date (of_ascii ''2024-05-01'') = Some (Date 2024 5 1)
   \<and> parse_date (of_ascii ''2024'' @ [cp_nen] @ of_ascii ''05'' @ [cp_gatsu] @ of_ascii ''01'' @ [cp_nichi])
       = Some (Date 2024 5 1)
   \<and> parse_date (of_ascii ''2024/05/01'') = Some (Date 2024 5 1)
   \<and> parse_date (of_ascii ''TBD'') = None
   \<and> (\<forall>s e. parse_date_body s = Inl e \<longrightarrow> parse_date s = None)
   \<and> (\<forall>s. try_formats s [fmt_dash, fmt_kanji, fmt_slash] = None \<and> re_search s = None
          \<longrightarrow> parse_date s = None)
   \<and> (\<forall>env pre cells post. parse_date (cell_text (cells ! 0)) = None
          \<longrightarrow> history_rows env (pre @ cells # post) = history_rows env (pre @ post))"
proof -
  have a: "\<forall>s e. parse_date_body s = Inl e \<longrightarrow> parse_date s = None"
    by (simp add: parse_date_def)
  have b: "\<forall>s. try_formats s [fmt_dash, fmt_kanji, fmt_slash] = None \<and> re_search s = None
          \<longrightarrow> parse_date s = None"
    by (simp add: parse_date_def parse_date_body_def)
  have c: "\<forall>env pre cells post. parse_date (cell_text (cells ! 0)) = None
          \<longrightarrow> history_rows env (pre @ cells # post) = history_rows env (pre @ post)"
  proof (intro allI impI)
    fix env :: env and pre post :: "row list" and cells :: row
    assume h: "parse_date (cell_text (cells ! 0)) = None"
    have "history_rows env (pre @ [cells] @ post)
            = history_rows env pre @ history_rows env [cells] @ history_rows env post"
      by (simp only: history_rows_append)
    then show "history_rows env (pre @ cells # post) = history_rows env (pre @ post)"
      using history_rows_dropped[OF h] by (simp add: history_rows_append)
  qed
  show ?thesis using parse_dash parse_kanji parse_slash parse_tbd a b c by blast
qed

theorem date_normalizer_witness:
  "parse_date_body (of_ascii ''2024-13-45'') = Inl ValueError
   \<and> parse_date (of_ascii ''2024-13-45'') = None
   \<and> try_formats (of_ascii ''TBD'') [fmt_dash, fmt_kanji, fmt_slash] = None
   \<and> re_search (of_ascii ''TBD'') = None
   \<and> parse_date (of_ascii ''TBD'') = None
   \<and> parse_date (cell_text (tbd_row ! 0)) = None
   \<and> history_rows env0 ([] @ tbd_row # []) = history_rows env0 ([] @ [])"
proof -
  have b: "parse_date_body (of_ascii ''2024-13-45'') = Inl ValueError" by code_simp
  have t: "parse_date (cell_text (tbd_row ! 0)) = None" unfolding tbd_row_def by code_simp
  have f: "try_formats (of_ascii ''TBD'') [fmt_dash, fmt_kanji, fmt_slash] = None" by code_simp
  have r: "re_search (of_ascii ''TBD'') = None" by code_simp
  from date_normalizer b t f r show ?thesis by blast
qed

subsection \<open>The row loop of the detail page\<close>

lemma length_add_remark [simp]: "length (add_remark t songs l) = length songs"
  by (simp add: add_remark_def Let_def split: option.splits)

lemma scan_rows_append:
  "l = int (length songs) - 1 \<Longrightarrow>
   scan_rows env (rows @ rows') songs l =
     scan_rows env rows' (scan_rows env rows songs l) (int (length (scan_rows env rows songs l)) - 1)"
proof (induction rows arbitrary: songs l)
  case Nil
  then show ?case by simp
next
  case (Cons cells rows)
  show ?case
  proof (cases "2 \<le> length cells")
    case False
    then show ?thesis using Cons by simp
  next
    case True
    show ?thesis
    proof (cases "song_link (cells ! 1)")
      case None
      then show ?thesis using True Cons.IH[of l "add_remark (cell_text (cells ! 1)) songs l"] Cons.prems
        by simp
    next
      case (Some p)
      obtain n h where p: "p = (n, h)" by (cases p)
      let ?s = "songs @ [\<lparr>name = n, song_url = urljoin env h, remark = None\<rparr>]"
      have "scan_rows env (rows @ rows') ?s (int (length ?s) - 1) =
            scan_rows env rows' (scan_rows env rows ?s (int (length ?s) - 1))
              (int (length (scan_rows env rows ?s (int (length ?s) - 1))) - 1)"
        by (rule Cons.IH) simp
      then show ?thesis using True Some p by (simp add: Let_def)
    qed
  qed
qed

lemma extracted_snoc:
  "extracted env (rows @ rows') =
     scan_rows env rows' (extracted env rows) (int (length (extracted env rows)) - 1)"
  unfolding extracted_def by (rule scan_rows_append) simp

lemma add_remark_nonempty:
  assumes "\<forall>s \<in> set songs. remark s \<noteq> Some []"
  shows "\<forall>s \<in> set (add_remark t songs l). remark s \<noteq> Some []"
proof (cases "t \<noteq> [] \<and> 0 \<le> l")
  case False
  then show ?thesis using assms by (auto simp: add_remark_def)
next
  case True
  have sub: "\<And>v. set (songs[nat l := v]) \<subseteq> insert v (set songs)"
    by (rule set_update_subset_insert)
  show ?thesis
    using True assms sub
    by (auto simp: add_remark_def Let_def split: option.splits dest!: set_mp[OF sub])
qed

lemma scan_rows_nonempty:
  "\<forall>s \<in> set songs. remark s \<noteq> Some [] \<Longrightarrow>
   \<forall>s \<in> set (scan_rows env rows songs l). remark s \<noteq> Some []"
proof (induction rows arbitrary: songs l)
  case Nil
  then show ?case by simp
next
  case (Cons cells rows)
  show ?case
  proof (cases "2 \<le> length cells")
    case False
    then show ?thesis using Cons by simp
  next
    case True
    show ?thesis
    proof (cases "song_link (cells ! 1)")
      case None
      have "\<forall>s \<in> set (add_remark (cell_text (cells ! 1)) songs l). remark s \<noteq> Some []"
        using Cons.prems by (rule add_remark_nonempty)
      from Cons.IH[OF this] show ?thesis using True None by simp
    next
      case (Some p)
      obtain n h where p: "p = (n, h)" by (cases p)
      let ?s = "songs @ [\<lparr>name = n, song_url = urljoin env h, remark = None\<rparr>]"
      have "\<forall>s \<in> set ?s. remark s \<noteq> Some []" using Cons.prems by auto
      from Cons.IH[OF this] show ?thesis using True Some p by (simp add: Let_def)
    qed
  qed
qed

lemma extracted_nonempty: "s \<in> set (extracted env rows) \<Longrightarrow> remark s \<noteq> Some []"
  using scan_rows_nonempty[of "[]" env rows "- 1"] by (simp add: extracted_def)

lemma add_remark_last:
  assumes "songs \<noteq> []" "t \<noteq> []" "remark (last songs) \<noteq> Some []"
  shows "add_remark t songs (int (length songs) - 1) =
     butlast songs @ [(last songs)\<lparr>remark :=
        Some (case remark (last songs) of None \<Rightarrow> t | Some r \<Rightarrow> r @ remark_sep @ t)\<rparr>]"
proof -
  have n: "nat (int (length songs) - 1) = length songs - Suc 0" by simp
  have l: "songs ! (length songs - Suc 0) = last songs"
    using assms(1) by (simp add: last_conv_nth)
  have u: "\<And>v. songs[length songs - Suc 0 := v] = butlast songs @ [v]"
  proof -
    fix v
    have "(butlast songs @ [last songs])[length (butlast songs) := v] = butlast songs @ [v]"
      by (rule list_update_length)
    then show "songs[length songs - Suc 0 := v] = butlast songs @ [v]"
      using assms(1) by simp
  qed
  have pos: "0 \<le> int (length songs) - 1" using assms(1) by (cases songs) auto
  show ?thesis
  proof (cases "remark (last songs)")
    case None
    then show ?thesis using assms(2) pos by (simp add: add_remark_def Let_def n l u)
  next
    case (Some r)
    then have "r \<noteq> []" using assms(3) by simp
    then show ?thesis using Some assms(2) pos by (simp add: add_remark_def Let_def n l u)
  qed
qed

lemma song_row_step:
  assumes "2 \<le> length cells" "song_link (cells ! 1) = Some (n, h)"
  shows "scan_rows env (cells # rows) songs l =
     scan_rows env rows (songs @ [\<lparr>name = n, song_url = urljoin env h, remark = None\<rparr>]) (int (length songs))"
  using assms by (simp add: Let_def)

lemma other_row_step:
  assumes "\<not> is_song_row cells"
  shows "scan_rows env (cells # rows) songs l =
     scan_rows env rows (if 2 \<le> length cells then add_remark (cell_text (cells ! 1)) songs l else songs) l"
proof (cases "2 \<le> length cells")
  case False
  then show ?thesis by simp
next
  case True
  then have "song_link (cells ! 1) = None" using assms unfolding is_song_row_def by blast
  then show ?thesis using True by simp
qed

lemma add_remark_snoc:
  assumes "t \<noteq> []" "remark s \<noteq> Some []"
  shows "add_remark t (songs @ [s]) (int (length songs)) =
     songs @ [s\<lparr>remark := Some (case remark s of None \<Rightarrow> t | Some a \<Rightarrow> a @ remark_sep @ t)\<rparr>]"
proof -
  have "add_remark t (songs @ [s]) (int (length (songs @ [s])) - 1) =
     butlast (songs @ [s]) @ [(last (songs @ [s]))\<lparr>remark :=
        Some (case remark (last (songs @ [s])) of None \<Rightarrow> t | Some r \<Rightarrow> r @ remark_sep @ t)\<rparr>]"
    by (rule add_remark_last) (use assms in simp_all)
  then show ?thesis by simp
qed

lemma add_remark_empty: "add_remark [] songs l = songs"
  by (simp add: add_remark_def)

lemma remark_texts_Cons:
  "remark_texts (cells # rows) =
     (if 2 \<le> length cells \<and> cell_text (cells ! 1) \<noteq> [] then cell_text (cells ! 1) # remark_texts rows
      else remark_texts rows)"
  by (simp add: remark_texts_def)

lemma scan_rows_block:
  assumes "\<forall>r \<in> set rems. \<not> is_song_row r" "remark s \<noteq> Some []"
  shows "scan_rows env rems (songs @ [s]) (int (length songs)) =
     songs @ [s\<lparr>remark := join_onto (remark s) (remark_texts rems)\<rparr>]"
  using assms
proof (induction rems arbitrary: s)
  case Nil
  then show ?case by (simp add: remark_texts_def)
next
  case (Cons r rems)
  have ns: "\<not> is_song_row r" and rest: "\<forall>r \<in> set rems. \<not> is_song_row r"
    using Cons.prems(1) by simp_all
  let ?t = "cell_text (r ! 1)"
  show ?case
  proof (cases "2 \<le> length r \<and> ?t \<noteq> []")
    case False
    have "scan_rows env (r # rems) (songs @ [s]) (int (length songs)) =
          scan_rows env rems (songs @ [s]) (int (length songs))"
      using False by (simp only: other_row_step[OF ns]) (auto simp: add_remark_empty)
    also have "\<dots> = songs @ [s\<lparr>remark := join_onto (remark s) (remark_texts rems)\<rparr>]"
      by (rule Cons.IH[OF rest Cons.prems(2)])
    also have "remark_texts rems = remark_texts (r # rems)"
      using False by (simp only: remark_texts_Cons if_False)
    finally show ?thesis .
  next
    case True
    let ?s' = "s\<lparr>remark := Some (case remark s of None \<Rightarrow> ?t | Some a \<Rightarrow> a @ remark_sep @ ?t)\<rparr>"
    have ne: "remark ?s' \<noteq> Some []" using True by (simp split: option.splits)
    have "scan_rows env (r # rems) (songs @ [s]) (int (length songs)) =
          scan_rows env rems (add_remark ?t (songs @ [s]) (int (length songs))) (int (length songs))"
      using True by (simp only: other_row_step[OF ns] if_True)
    also have "add_remark ?t (songs @ [s]) (int (length songs)) = songs @ [?s']"
      by (rule add_remark_snoc) (use True Cons.prems(2) in simp_all)
    also have "scan_rows env rems (songs @ [?s']) (int (length songs)) =
          songs @ [?s'\<lparr>remark := join_onto (remark ?s') (remark_texts rems)\<rparr>]"
      by (rule Cons.IH[OF rest ne])
    also have "?s'\<lparr>remark := join_onto (remark ?s') (remark_texts rems)\<rparr> =
          s\<lparr>remark := join_onto (remark s) (remark_texts (r # rems))\<rparr>"
      using True by (cases "remark s") (simp_all add: remark_texts_Cons)
    finally show ?thesis .
  qed
qed

lemma scan_rows_no_song:
  "\<forall>r \<in> set rems. \<not> is_song_row r \<Longrightarrow> scan_rows env rems [] (- 1) = []"
proof (induction rems)
  case Nil
  then show ?case by simp
next
  case (Cons r rems)
  then have ns: "\<not> is_song_row r" by simp
  show ?case using Cons by (simp only: other_row_step[OF ns]) (auto simp: add_remark_def)
qed

lemma extracted_song_block:
  assumes "2 \<le> length cells" "song_link (cells ! 1) = Some (n, h)" "\<forall>r \<in> set rems. \<not> is_song_row r"
  shows "extracted env (pre @ cells # rems) =
     extracted env pre @ [\<lparr>name = n, song_url = urljoin env h, remark = join_onto None (remark_texts rems)\<rparr>]"
proof -
  let ?E = "extracted env pre"
  let ?s = "\<lparr>name = n, song_url = urljoin env h, remark = None\<rparr>"
  have "extracted env (pre @ cells # rems) = scan_rows env (cells # rems) ?E (int (length ?E) - 1)"
    by (rule extracted_snoc)
  also have "\<dots> = scan_rows env rems (?E @ [?s]) (int (length ?E))"
    by (rule song_row_step[OF assms(1,2)])
  also have "\<dots> = ?E @ [?s\<lparr>remark := join_onto (remark ?s) (remark_texts rems)\<rparr>]"
    by (rule scan_rows_block[OF assms(3)]) simp
  finally show ?thesis by simp
qed

lemma ex1: "extracted env0 [row_a, remark_row (of_ascii ''x''), remark_row (of_ascii ''y'')]
     = [\<lparr>name = of_ascii ''A'', song_url = of_ascii ''/song/a'', remark = Some (of_ascii ''x; y'')\<rparr>]"
  by (simp add: extracted_def row_a_def remark_row_def env0_def song_link_def add_remark_def
      remark_sep_def of_ascii_def Let_def)

lemma ex_merge:
  "extracted env0 [song_row (of_ascii ''Intro'') (of_ascii ''/song/intro''),
                   remark_row (of_ascii ''Encore note''),
                   song_row (of_ascii ''Finale'') (of_ascii ''/song/finale'')]
     = [\<lparr>name = of_ascii ''Intro'', song_url = of_ascii ''/song/intro'',
          remark = Some (of_ascii ''Encore note'')\<rparr>,
        \<lparr>name = of_ascii ''Finale'', song_url = of_ascii ''/song/finale'', remark = None\<rparr>]"
  by (simp add: extracted_def song_row_def remark_row_def env0_def song_link_def add_remark_def
      remark_sep_def of_ascii_def Let_def)

lemma ex_merge_stored:
  "relations_data [of_ascii ''Intro'' \<mapsto> 1, of_ascii ''Finale'' \<mapsto> 2] 7
     [\<lparr>name = of_ascii ''Intro'', song_url = of_ascii ''/song/intro'',
        remark = Some (of_ascii ''Encore note'')\<rparr>,
      \<lparr>name = of_ascii ''Finale'', song_url = of_ascii ''/song/finale'', remark = None\<rparr>]
     = [(7, 1, 1, Some (of_ascii ''Encore note'')), (7, 2, 2, None)]"
  by (simp add: relations_data_def of_ascii_def)

lemma ex_latest:
  "extracted env0 [row_a, row_b, remark_row (of_ascii ''x'')]
     = [\<lparr>name = of_ascii ''A'', song_url = of_ascii ''/song/a'', remark = None\<rparr>,
        \<lparr>name = of_ascii ''B'', song_url = of_ascii ''/song/b'', remark = Some (of_ascii ''x'')\<rparr>]"
  by (simp add: extracted_def row_a_def row_b_def remark_row_def env0_def song_link_def
      add_remark_def remark_sep_def of_ascii_def Let_def)

text \<open>
  Claim C4. The row loop of the detail page, row by row and run by run.

  \<^item> A song row coming after the rows \<open>rows\<close> adds its song, without a remark, at the end
    of the setlist of \<open>rows\<close>, whose entries and remarks stay as they are.
  \<^item> A row whose second cell gives no song link and has a non-empty text, coming after
    \<open>rows\<close>, leaves the setlist of \<open>rows\<close> as it is but for its last entry, whose remark
    becomes the text, or the remark it had, the separator \<open>"; "\<close> and the text.
  \<^item> Hence a song row followed by rows none of which is a song row contributes exactly
    one entry, after the setlist of the rows before it: its song, with the non-empty
    second-cell texts of the rows that follow it joined by \<open>"; "\<close> in their order. The
    remark of a row thus goes to the nearest song row before it, and to no other.
  \<^item> Rows none of which is a song row give the empty setlist, and a row without a song
    link that comes when no song has been seen changes nothing, whatever follows it.
  \<^item> The rows [song A, x, y] give A the remark \<open>"x; y"\<close>; the rows [song Intro,
    Encore note, song Finale] give Intro the remark \<open>"Encore note"\<close> and Finale none,
    stored at positions 1 and 2; the rows [song A, song B, x] give the remark to B.
\<close>
theorem remark_rows:
  "(\<forall>env rows cells n h. 2 \<le> length cells \<and> song_link (cells ! 1) = Some (n, h)
       \<longrightarrow> extracted env (rows @ [cells]) =
            extracted env rows @ [\<lparr>name = n, song_url = urljoin env h, remark = None\<rparr>])
   \<and> (\<forall>env rows cells. 2 \<le> length cells \<and> song_link (cells ! 1) = None \<and> cell_text (cells ! 1) \<noteq> []
       \<longrightarrow> extracted env (rows @ [cells]) =
            (let songs = extracted env rows; t = cell_text (cells ! 1) in
             if songs = [] then []
             else butlast songs @ [(last songs)\<lparr>remark :=
                    Some (case remark (last songs) of None \<Rightarrow> t | Some r \<Rightarrow> r @ remark_sep @ t)\<rparr>]))
   \<and> (\<forall>env pre cells n h rems.
         2 \<le> length cells \<and> song_link (cells ! 1) = Some (n, h) \<and> (\<forall>r \<in> set rems. \<not> is_song_row r)
       \<longrightarrow> extracted env (pre @ cells # rems) =
            extracted env pre @ [\<lparr>name = n, song_url = urljoin env h,
                                  remark = join_onto None (remark_texts rems)\<rparr>])
   \<and> (\<forall>env rems. (\<forall>r \<in> set rems. \<not> is_song_row r) \<longrightarrow> extracted env rems = [])
   \<and> (\<forall>env rows cells rest. 2 \<le> length cells \<and> song_link (cells ! 1) = None \<and> extracted env rows = []
       \<longrightarrow> extracted env (rows @ cells # rest) = extracted env (rows @ rest))
   \<and> extracted env0 [row_a, remark_row (of_ascii ''x''), remark_row (of_ascii ''y'')]
       = [\<lparr>name = of_ascii ''A'', song_url = of_ascii ''/song/a'', remark = Some (of_ascii ''x; y'')\<rparr>]
   \<and> extracted env0 [song_row (of_ascii ''Intro'') (of_ascii ''/song/intro''),
                      remark_row (of_ascii ''Encore note''),
                      song_row (of_ascii ''Finale'') (of_ascii ''/song/finale'')]
       = [\<lparr>name = of_ascii ''Intro'', song_url = of_ascii ''/song/intro'',
            remark = Some (of_ascii ''Encore note'')\<rparr>,
          \<lparr>name = of_ascii ''Finale'', song_url = of_ascii ''/song/finale'', remark = None\<rparr>]
   \<and> relations_data [of_ascii ''Intro'' \<mapsto> 1, of_ascii ''Finale'' \<mapsto> 2] 7
        (extracted env0 [song_row (of_ascii ''Intro'') (of_ascii ''/song/intro''),
                         remark_row (of_ascii ''Encore note''),
                         song_row (of_ascii ''Finale'') (of_ascii ''/song/finale'')])
       = [(7, 1, 1, Some (of_ascii ''Encore note'')), (7, 2, 2, None)]
   \<and> extracted env0 [row_a, row_b, remark_row (of_ascii ''x'')]
       = [\<lparr>name = of_ascii ''A'', song_url = of_ascii ''/song/a'', remark = None\<rparr>,
          \<lparr>name = of_ascii ''B'', song_url = of_ascii ''/song/b'', remark = Some (of_ascii ''x'')\<rparr>]"
proof (intro conjI allI impI)
  fix env :: env and rows :: "row list" and cells :: row and n h :: pystr
  assume h: "2 \<le> length cells \<and> song_link (cells ! 1) = Some (n, h)"
  have "\<forall>r \<in> set ([] :: row list). \<not> is_song_row r" by simp
  with h have "extracted env (rows @ cells # []) =
     extracted env rows @ [\<lparr>name = n, song_url = urljoin env h,
                            remark = join_onto None (remark_texts [])\<rparr>]"
    by (intro extracted_song_block) auto
  then show "extracted env (rows @ [cells]) =
            extracted env rows @ [\<lparr>name = n, song_url = urljoin env h, remark = None\<rparr>]"
    by (simp add: remark_texts_def)
next
  fix env :: env and rows :: "row list" and cells :: row
  assume h: "2 \<le> length cells \<and> song_link (cells ! 1) = None \<and> cell_text (cells ! 1) \<noteq> []"
  let ?songs = "extracted env rows"
  let ?t = "cell_text (cells ! 1)"
  have ns: "\<not> is_song_row cells" using h by (simp add: is_song_row_def)
  have st: "scan_rows env [cells] ?songs (int (length ?songs) - 1)
              = add_remark ?t ?songs (int (length ?songs) - 1)"
  proof -
    have "scan_rows env [cells] ?songs (int (length ?songs) - 1) =
          scan_rows env [] (if 2 \<le> length cells then add_remark ?t ?songs (int (length ?songs) - 1)
                            else ?songs) (int (length ?songs) - 1)"
      by (rule other_row_step[OF ns])
    then show ?thesis using h by simp
  qed
  have e: "extracted env (rows @ [cells]) = add_remark ?t ?songs (int (length ?songs) - 1)"
    by (simp only: extracted_snoc st)
  show "extracted env (rows @ [cells]) =
            (let songs = extracted env rows; t = cell_text (cells ! 1) in
             if songs = [] then []
             else butlast songs @ [(last songs)\<lparr>remark :=
                    Some (case remark (last songs) of None \<Rightarrow> t | Some r \<Rightarrow> r @ remark_sep @ t)\<rparr>])"
  proof (cases "?songs = []")
    case True
    then show ?thesis using e by (simp add: add_remark_def)
  next
    case False
    then have "last ?songs \<in> set ?songs" by (rule last_in_set)
    then have "remark (last ?songs) \<noteq> Some []" by (rule extracted_nonempty)
    moreover have tne: "?t \<noteq> []" using h by blast
    ultimately have ar: "add_remark ?t ?songs (int (length ?songs) - 1) =
       butlast ?songs @ [(last ?songs)\<lparr>remark :=
          Some (case remark (last ?songs) of None \<Rightarrow> ?t | Some r \<Rightarrow> r @ remark_sep @ ?t)\<rparr>]"
      using False by (intro add_remark_last)
    show ?thesis by (simp only: Let_def e ar False if_False)
  qed
next
  fix env :: env and pre rems :: "row list" and cells :: row and n h :: pystr
  assume h: "2 \<le> length cells \<and> song_link (cells ! 1) = Some (n, h) \<and> (\<forall>r \<in> set rems. \<not> is_song_row r)"
  then show "extracted env (pre @ cells # rems) =
            extracted env pre @ [\<lparr>name = n, song_url = urljoin env h,
                                  remark = join_onto None (remark_texts rems)\<rparr>]"
    by (intro extracted_song_block) auto
next
  fix env :: env and rems :: "row list"
  assume "\<forall>r \<in> set rems. \<not> is_song_row r"
  then show "extracted env rems = []"
    unfolding extracted_def by (rule scan_rows_no_song)
next
  fix env :: env and rows rest :: "row list" and cells :: row
  assume h: "2 \<le> length cells \<and> song_link (cells ! 1) = None \<and> extracted env rows = []"
  have ns: "\<not> is_song_row cells" using h by (simp add: is_song_row_def)
  have "extracted env (rows @ cells # rest) = scan_rows env (cells # rest) [] (- 1)"
    using h by (simp add: extracted_snoc[of env rows "cells # rest"])
  also have "\<dots> = scan_rows env rest [] (- 1)"
  proof -
    have "scan_rows env (cells # rest) [] (- 1) =
          scan_rows env rest (if 2 \<le> length cells then add_remark (cell_text (cells ! 1)) [] (- 1)
                              else []) (- 1)"
      by (rule other_row_step[OF ns])
    then show ?thesis by (simp add: add_remark_def)
  qed
  also have "\<dots> = extracted env (rows @ rest)"
    using h by (simp add: extracted_snoc[of env rows rest])
  finally show "extracted env (rows @ cells # rest) = extracted env (rows @ rest)" .
next
  show "extracted env0 [row_a, remark_row (of_ascii ''x''), remark_row (of_ascii ''y'')]
       = [\<lparr>name = of_ascii ''A'', song_url = of_ascii ''/song/a'', remark = Some (of_ascii ''x; y'')\<rparr>]"
    by (rule ex1)
next
  show "extracted env0 [song_row (of_ascii ''Intro'') (of_ascii ''/song/intro''),
                      remark_row (of_ascii ''Encore note''),
                      song_row (of_ascii ''Finale'') (of_ascii ''/song/finale'')]
       = [\<lparr>name = of_ascii ''Intro'', song_url = of_ascii ''/song/intro'',
            remark = Some (of_ascii ''Encore note'')\<rparr>,
          \<lparr>name = of_ascii ''Finale'', song_url = of_ascii ''/song/finale'', remark = None\<rparr>]"
    by (rule ex_merge)
next
  show "relations_data [of_ascii ''Intro'' \<mapsto> 1, of_ascii ''Finale'' \<mapsto> 2] 7
        (extracted env0 [song_row (of_ascii ''Intro'') (of_ascii ''/song/intro''),
                         remark_row (of_ascii ''Encore note''),
                         song_row (of_ascii ''Finale'') (of_ascii ''/song/finale'')])
       = [(7, 1, 1, Some (of_ascii ''Encore note'')), (7, 2, 2, None)]"
    by (simp only: ex_merge ex_merge_stored)
next
  show "extracted env0 [row_a, row_b, remark_row (of_ascii ''x'')]
       = [\<lparr>name = of_ascii ''A'', song_url = of_ascii ''/song/a'', remark = None\<rparr>,
          \<lparr>name = of_ascii ''B'', song_url = of_ascii ''/song/b'', remark = Some (of_ascii ''x'')\<rparr>]"
    by (rule ex_latest)
qed

theorem remark_rows_witness:
  "2 \<le> length row_b \<and> song_link (row_b ! 1) = Some (of_ascii ''B'', of_ascii ''/song/b'')
   \<and> 2 \<le> length (remark_row (of_ascii ''y''))
   \<and> song_link (remark_row (of_ascii ''y'') ! 1) = None
   \<and> cell_text (remark_row (of_ascii ''y'') ! 1) \<noteq> []
   \<and> \<not> is_song_row (remark_row (of_ascii ''y'')) \<and> \<not> is_song_row (remark_row (of_ascii ''z''))
   \<and> extracted env0 [row_a, remark_row (of_ascii ''x'')]
       = [\<lparr>name = of_ascii ''A'', song_url = of_ascii ''/song/a'', remark = Some (of_ascii ''x'')\<rparr>]
   \<and> extracted env0 ([row_a, remark_row (of_ascii ''x'')] @ [row_b])
       = [\<lparr>name = of_ascii ''A'', song_url = of_ascii ''/song/a'', remark = Some (of_ascii ''x'')\<rparr>,
          \<lparr>name = of_ascii ''B'', song_url = of_ascii ''/song/b'', remark = None\<rparr>]
   \<and> extracted env0 ([row_a, remark_row (of_ascii ''x'')] @ [remark_row (of_ascii ''y'')])
       = [\<lparr>name = of_ascii ''A'', song_url = of_ascii ''/song/a'',
           remark = Some (of_ascii ''x'' @ remark_sep @ of_ascii ''y'')\<rparr>]
   \<and> extracted env0 ([row_a, remark_row (of_ascii ''x'')] @ row_b #
         [remark_row (of_ascii ''y''), remark_row (of_ascii ''z'')])
       = [\<lparr>name = of_ascii ''A'', song_url = of_ascii ''/song/a'', remark = Some (of_ascii ''x'')\<rparr>,
          \<lparr>name = of_ascii ''B'', song_url = of_ascii ''/song/b'',
           remark = Some (of_ascii ''y'' @ remark_sep @ of_ascii ''z'')\<rparr>]
   \<and> extracted env0 [remark_row (of_ascii ''y''), remark_row (of_ascii ''z'')] = []
   \<and> extracted env0 ([] @ remark_row (of_ascii ''y'') # [row_a]) = extracted env0 ([] @ [row_a])"
proof -
  let ?pre = "[row_a, remark_row (of_ascii ''x'')]"
  let ?y = "remark_row (of_ascii ''y'')"
  let ?z = "remark_row (of_ascii ''z'')"
  have sb: "2 \<le> length row_b \<and> song_link (row_b ! 1) = Some (of_ascii ''B'', of_ascii ''/song/b'')"
    by (simp add: row_b_def song_link_def of_ascii_def)
  have a: "2 \<le> length ?y \<and> song_link (?y ! 1) = None \<and> cell_text (?y ! 1) \<noteq> []"
    by (simp add: remark_row_def song_link_def of_ascii_def)
  have ns: "\<not> is_song_row ?y \<and> \<not> is_song_row ?z"
    by (simp add: is_song_row_def remark_row_def song_link_def)
  then have nss: "\<forall>r \<in> set [?y, ?z]. \<not> is_song_row r" by simp
  have b: "extracted env0 ?pre
       = [\<lparr>name = of_ascii ''A'', song_url = of_ascii ''/song/a'', remark = Some (of_ascii ''x'')\<rparr>]"
    by (simp add: extracted_def row_a_def remark_row_def env0_def song_link_def add_remark_def
      remark_sep_def of_ascii_def Let_def)
  have c: "extracted env0 [] = []" by (simp add: extracted_def)
  have u: "urljoin env0 (of_ascii ''/song/b'') = of_ascii ''/song/b''" by (simp add: env0_def)
  have t: "cell_text (?y ! Suc 0) = of_ascii ''y''" by (simp add: remark_row_def)
  have ts: "join_onto None (remark_texts [?y, ?z]) = Some (of_ascii ''y'' @ remark_sep @ of_ascii ''z'')"
    by (simp add: remark_texts_def remark_row_def of_ascii_def)
  note song = remark_rows[THEN conjunct1, rule_format]
  note rem = remark_rows[THEN conjunct2, THEN conjunct1, rule_format]
  note block = remark_rows[THEN conjunct2, THEN conjunct2, THEN conjunct1, rule_format]
  note nosong = remark_rows[THEN conjunct2, THEN conjunct2, THEN conjunct2, THEN conjunct1, rule_format]
  note before = remark_rows[THEN conjunct2, THEN conjunct2, THEN conjunct2, THEN conjunct2,
      THEN conjunct1, rule_format]
  have 1: "extracted env0 (?pre @ [row_b]) =
       [\<lparr>name = of_ascii ''A'', song_url = of_ascii ''/song/a'', remark = Some (of_ascii ''x'')\<rparr>,
        \<lparr>name = of_ascii ''B'', song_url = of_ascii ''/song/b'', remark = None\<rparr>]"
    using song[of row_b "of_ascii ''B''" "of_ascii ''/song/b''" env0 ?pre] sb
    by (simp only: b u append.simps)
  have 2: "extracted env0 (?pre @ [?y]) =
       [\<lparr>name = of_ascii ''A'', song_url = of_ascii ''/song/a'',
         remark = Some (of_ascii ''x'' @ remark_sep @ of_ascii ''y'')\<rparr>]"
    using rem[of ?y env0 ?pre] a by (simp add: b t Let_def)
  have 3: "extracted env0 (?pre @ row_b # [?y, ?z]) =
       [\<lparr>name = of_ascii ''A'', song_url = of_ascii ''/song/a'', remark = Some (of_ascii ''x'')\<rparr>,
        \<lparr>name = of_ascii ''B'', song_url = of_ascii ''/song/b'',
         remark = Some (of_ascii ''y'' @ remark_sep @ of_ascii ''z'')\<rparr>]"
    using block[of row_b "of_ascii ''B''" "of_ascii ''/song/b''" "[?y, ?z]" env0 ?pre] sb nss
    by (simp only: b u ts append.simps)
  have 4: "extracted env0 [?y, ?z] = []"
    using nosong[of "[?y, ?z]" env0] nss by blast
  have 5: "extracted env0 ([] @ ?y # [row_a]) = extracted env0 ([] @ [row_a])"
    using before[of ?y env0 "[]" "[row_a]"] a c by blast
  show ?thesis using sb a ns b 1 2 3 4 5 by blast
qed

subsection \<open>The rows of a batch\<close>

lemma ex_less_Suc_shift: "(\<exists>j < Suc n. P j) \<longleftrightarrow> P 0 \<or> (\<exists>j < n. P (Suc j))"
  by (auto simp: less_Suc_eq_0_disj)

lemma relations_from_set:
  "r \<in> set (relations_from c lid k songs) \<longleftrightarrow>
     (\<exists>j < length songs. truthy_id (c (name (songs ! j))) \<and>
        r = (lid, the (c (name (songs ! j))), k + int j, remark (songs ! j)))"
proof (induction songs arbitrary: k)
  case Nil
  then show ?case by simp
next
  case (Cons s ss)
  show ?case
    by (cases "c (name s)") (auto simp: Cons.IH ex_less_Suc_shift truthy_id_def algebra_simps)
qed

lemma fold_insert_relation_other:
  "\<forall>r \<in> set rels. (fst r, fst (snd r)) \<noteq> key \<Longrightarrow> fold insert_relation rels t key = t key"
  by (induction rels arbitrary: t) (auto simp: insert_relation_def split: prod.splits)


lemma fold_insert_relation_last:
  assumes "j < length songs" "c (name (songs ! j)) = Some sid" "sid \<noteq> 0"
    and "\<forall>j'. j < j' \<and> j' < length songs \<longrightarrow> c (name (songs ! j')) \<noteq> Some sid"
  shows "fold insert_relation (relations_from c lid k songs) t (lid, sid)
           = Some (k + int j, remark (songs ! j))"
  using assms
proof (induction songs arbitrary: k j t)
  case Nil
  then show ?case by simp
next
  case (Cons s ss)
  show ?case
  proof (cases j)
    case 0
    have later: "\<forall>j'<length ss. c (name (ss ! j')) \<noteq> Some sid"
    proof (intro allI impI)
      fix j' assume "j' < length ss"
      then have "j < Suc j' \<and> Suc j' < length (s # ss)" using 0 by simp
      then have "c (name ((s # ss) ! Suc j')) \<noteq> Some sid" using Cons.prems(4) by blast
      then show "c (name (ss ! j')) \<noteq> Some sid" by simp
    qed
    have "\<forall>r \<in> set (relations_from c lid (k + 1) ss). (fst r, fst (snd r)) \<noteq> (lid, sid)"
      using later by (auto simp: relations_from_set truthy_id_def split: option.splits)
    then have "\<And>t'. fold insert_relation (relations_from c lid (k + 1) ss) t' (lid, sid) = t' (lid, sid)"
      by (rule fold_insert_relation_other)
    moreover have "insert_relation (lid, sid, k, remark s) t (lid, sid) = Some (k, remark s)"
      by (simp add: insert_relation_def)
    ultimately show ?thesis using 0 Cons.prems(2,3) by simp
  next
    case (Suc j0)
    have a: "j0 < length ss" using Cons.prems(1) Suc by simp
    have b: "c (name (ss ! j0)) = Some sid" using Cons.prems(2) Suc by simp
    have d: "\<forall>j'. j0 < j' \<and> j' < length ss \<longrightarrow> c (name (ss ! j')) \<noteq> Some sid"
    proof (intro allI impI)
      fix j' assume "j0 < j' \<and> j' < length ss"
      then have "j < Suc j' \<and> Suc j' < length (s # ss)" using Suc by simp
      then have "c (name ((s # ss) ! Suc j')) \<noteq> Some sid" using Cons.prems(4) by blast
      then show "c (name (ss ! j')) \<noteq> Some sid" by simp
    qed
    have ih: "\<And>t'. fold insert_relation (relations_from c lid (k + 1) ss) t' (lid, sid)
           = Some (k + 1 + int j0, remark (ss ! j0))"
      by (rule Cons.IH[OF a b Cons.prems(3) d])
    show ?thesis using Suc ih by (cases "c (name s)") (auto simp: algebra_simps)
  qed
qed

lemma executemany_eq:
  "executemany f k rels t =
     (if \<exists>j < length rels. f = ExecuteFails (k + j) then Inl DbError
      else Inr (fold insert_relation rels t))"
proof (induction rels arbitrary: k t)
  case Nil
  then show ?case by simp
next
  case (Cons r rs)
  show ?case by (simp add: Cons.IH ex_less_Suc_shift)
qed

lemma executemany_hits:
  "executemany f 0 rels t =
     (if (\<exists>k. f = ExecuteFails k \<and> k < length rels) then Inl DbError
      else Inr (fold insert_relation rels t))"
  by (auto simp: executemany_eq)

lemma batch_eq:
  "save_live_song_relations_batch f lid songs st =
     (if f = ConnectFails \<and> songs \<noteq> [] then Some DbError else None,
      if fault_hits f (length (relations_data (song_cache st) lid songs)) then st
      else st\<lparr>store := (store st)\<lparr>live_history_song :=
             fold insert_relation (relations_data (song_cache st) lid songs)
               (live_history_song (store st))\<rparr>\<rparr>)"
proof (cases "songs = []")
  case True
  then show ?thesis
    by (cases f) (simp_all add: save_live_song_relations_batch_def fault_hits_def relations_data_def)
next
  case False
  show ?thesis
  proof (cases "relations_data (song_cache st) lid songs = []")
    case True
    then show ?thesis using False
      by (cases f) (simp_all add: save_live_song_relations_batch_def fault_hits_def Let_def)
  next
    case ne: False
    show ?thesis using False ne
      by (cases f) (auto simp: save_live_song_relations_batch_def fault_hits_def Let_def executemany_hits)
  qed
qed

lemma dom_fold_insert_relation:
  "dom (fold insert_relation rels t) = dom t \<union> (\<lambda>r. (fst r, fst (snd r))) ` set rels"
  by (induction rels arbitrary: t) (auto simp: insert_relation_def split: prod.splits)

text \<open>
  Claim C7. Whatever goes wrong with a batch (the connection, one of its statements,
  the commit), the call leaves the state, and with it the association table, as it
  found it; when nothing goes wrong, the table is the old one after the statements of
  all the rows of the batch, in order, so each of their (show, song) pairs has a row.
  An exception leaves the call only when the connection is refused.
\<close>

theorem batch_atomic:
  "save_live_song_relations_batch f lid songs st =
     (if f = ConnectFails \<and> songs \<noteq> [] then Some DbError else None,
      if fault_hits f (length (relations_data (song_cache st) lid songs)) then st
      else st\<lparr>store := (store st)\<lparr>live_history_song :=
             fold insert_relation (relations_data (song_cache st) lid songs)
               (live_history_song (store st))\<rparr>\<rparr>)
   \<and> dom (fold insert_relation (relations_data (song_cache st) lid songs)
             (live_history_song (store st)))
       = dom (live_history_song (store st))
         \<union> (\<lambda>r. (fst r, fst (snd r))) ` set (relations_data (song_cache st) lid songs)"
  by (simp add: batch_eq dom_fold_insert_relation)

text \<open>
  Claim C10. When the entry at index \<open>i\<close> (counted from 0, so position \<open>i + 1\<close>) has
  no truthy id in the cache, no row of the batch has position \<open>i + 1\<close>, every entry
  with a truthy id still has its row with its own position, and a batch that meets no
  fault raises nothing and writes exactly these rows.
\<close>

theorem batch_skips_unknown_song:
  assumes "i < length songs" and "\<not> truthy_id (song_cache st (name (songs ! i)))"
  shows "(\<forall>r \<in> set (relations_data (song_cache st) lid songs). fst (snd (snd r)) \<noteq> int i + 1)
    \<and> (\<forall>j < length songs. truthy_id (song_cache st (name (songs ! j))) \<longrightarrow>
          (lid, the (song_cache st (name (songs ! j))), int j + 1, remark (songs ! j))
            \<in> set (relations_data (song_cache st) lid songs))
    \<and> save_live_song_relations_batch NoFault lid songs st =
        (None, st\<lparr>store := (store st)\<lparr>live_history_song :=
             fold insert_relation (relations_data (song_cache st) lid songs)
               (live_history_song (store st))\<rparr>\<rparr>)"
proof (intro conjI)
  show "\<forall>r \<in> set (relations_data (song_cache st) lid songs). fst (snd (snd r)) \<noteq> int i + 1"
  proof
    fix r assume "r \<in> set (relations_data (song_cache st) lid songs)"
    then obtain j where j: "j < length songs" "truthy_id (song_cache st (name (songs ! j)))"
      "r = (lid, the (song_cache st (name (songs ! j))), 1 + int j, remark (songs ! j))"
      unfolding relations_data_def relations_from_set by blast
    then have "j \<noteq> i" using assms(2) by blast
    then show "fst (snd (snd r)) \<noteq> int i + 1" using j(3) by simp
  qed
next
  show "\<forall>j < length songs. truthy_id (song_cache st (name (songs ! j))) \<longrightarrow>
          (lid, the (song_cache st (name (songs ! j))), int j + 1, remark (songs ! j))
            \<in> set (relations_data (song_cache st) lid songs)"
    unfolding relations_data_def relations_from_set by (auto simp: algebra_simps)
next
  show "save_live_song_relations_batch NoFault lid songs st =
        (None, st\<lparr>store := (store st)\<lparr>live_history_song :=
             fold insert_relation (relations_data (song_cache st) lid songs)
               (live_history_song (store st))\<rparr>\<rparr>)"
    by (simp add: batch_eq fault_hits_def)
qed

lemma rel_ac: "relations_data (song_cache st_ac) 7 song_ab = [(7, 1, 1, None), (7, 3, 3, None)]"
  by (simp add: relations_data_def song_ab_def st_ac_def of_ascii_def)

theorem batch_skips_unknown_song_witness:
  "(1::nat) < length song_ab \<and> \<not> truthy_id (song_cache st_ac (name (song_ab ! 1)))
   \<and> relations_data (song_cache st_ac) 7 song_ab = [(7, 1, 1, None), (7, 3, 3, None)]
   \<and> save_live_song_relations_batch NoFault 7 song_ab st_ac =
        (None, st_ac\<lparr>store := (store st_ac)\<lparr>live_history_song :=
             fold insert_relation (relations_data (song_cache st_ac) 7 song_ab)
               (live_history_song (store st_ac))\<rparr>\<rparr>)"
proof -
  have a: "(1::nat) < length song_ab" by (simp add: song_ab_def)
  have b: "\<not> truthy_id (song_cache st_ac (name (song_ab ! 1)))"
    by (simp add: song_ab_def st_ac_def truthy_id_def of_ascii_def)
  from batch_skips_unknown_song[OF a b, of 7] rel_ac a b show ?thesis by blast
qed

subsection \<open>Positions\<close>

lemma map_name_add_remark [simp]: "map name (add_remark t songs l) = map name songs"
proof (cases "t \<noteq> [] \<and> 0 \<le> l \<and> nat l < length songs")
  case True
  then show ?thesis
    by (auto simp: add_remark_def Let_def map_update list_update_same_conv split: option.splits)
next
  case False
  then show ?thesis
    by (auto simp: add_remark_def Let_def list_update_beyond split: option.splits)
qed

lemma scan_rows_names:
  "map name (scan_rows env rows songs l) = map name songs @ map song_row_name (filter is_song_row rows)"
proof (induction rows arbitrary: songs l)
  case Nil
  then show ?case by simp
next
  case (Cons cells rows)
  show ?case
  proof (cases "2 \<le> length cells")
    case False
    then show ?thesis using Cons by (simp add: is_song_row_def)
  next
    case True
    show ?thesis
    proof (cases "song_link (cells ! 1)")
      case None
      then show ?thesis using True Cons.IH by (simp add: is_song_row_def)
    next
      case (Some p)
      obtain n h where p: "p = (n, h)" by (cases p)
      show ?thesis using True Some p Cons.IH
        by (simp add: is_song_row_def song_row_name_def Let_def)
    qed
  qed
qed

text \<open>
  Claim C5. The names of the extracted setlist are the names of the song rows, in
  order, so an entry's index in the setlist is its index among the song rows and rows
  without a link take no position. When every entry has a truthy id in the cache and
  the batch meets no fault, the row stored for the show and the song of entry \<open>j\<close>
  (counted from 0) has position \<open>j + 1\<close> and the entry's remark, \<open>j\<close> being the last
  entry of that song when the song is listed more than once.
\<close>

theorem position_fidelity:
  assumes "songs = extracted env rows"
    and "\<forall>s \<in> set songs. truthy_id (song_cache st (name s))"
    and "j < length songs"
    and "\<forall>j'. j < j' \<and> j' < length songs \<longrightarrow>
           song_cache st (name (songs ! j')) \<noteq> song_cache st (name (songs ! j))"
  shows "map name songs = map song_row_name (filter is_song_row rows)
    \<and> live_history_song (store (snd (save_live_song_relations_batch NoFault lid songs st)))
        (lid, the (song_cache st (name (songs ! j)))) = Some (int j + 1, remark (songs ! j))"
proof
  show "map name songs = map song_row_name (filter is_song_row rows)"
    using assms(1) by (simp add: extracted_def scan_rows_names)
next
  have "songs ! j \<in> set songs" using assms(3) by simp
  then have "truthy_id (song_cache st (name (songs ! j)))" using assms(2) by blast
  then obtain sid where sid: "song_cache st (name (songs ! j)) = Some sid" "sid \<noteq> 0"
    by (auto simp: truthy_id_def split: option.splits)
  have later: "\<forall>j'. j < j' \<and> j' < length songs \<longrightarrow> song_cache st (name (songs ! j')) \<noteq> Some sid"
    using assms(4) sid(1) by simp
  have "fold insert_relation (relations_from (song_cache st) lid 1 songs)
          (live_history_song (store st)) (lid, sid) = Some (1 + int j, remark (songs ! j))"
    by (rule fold_insert_relation_last[OF assms(3) sid later])
  then show "live_history_song (store (snd (save_live_song_relations_batch NoFault lid songs st)))
        (lid, the (song_cache st (name (songs ! j)))) = Some (int j + 1, remark (songs ! j))"
    by (simp add: batch_eq fault_hits_def sid relations_data_def)
qed

lemma ex_ab: "extracted env0 [row_a, remark_row (of_ascii ''x''), row_b] =
     [\<lparr>name = of_ascii ''A'', song_url = of_ascii ''/song/a'', remark = Some (of_ascii ''x'')\<rparr>,
      \<lparr>name = of_ascii ''B'', song_url = of_ascii ''/song/b'', remark = None\<rparr>]"
  by (simp add: extracted_def row_a_def row_b_def remark_row_def env0_def song_link_def add_remark_def
      remark_sep_def of_ascii_def Let_def)

theorem position_fidelity_witness:
  "map name (extracted env0 [row_a, remark_row (of_ascii ''x''), row_b])
     = map song_row_name (filter is_song_row [row_a, remark_row (of_ascii ''x''), row_b])
   \<and> live_history_song (store (snd (save_live_song_relations_batch NoFault 7
        (extracted env0 [row_a, remark_row (of_ascii ''x''), row_b]) st_ab)))
        (7, the (song_cache st_ab (name (extracted env0 [row_a, remark_row (of_ascii ''x''), row_b] ! 1))))
       = Some (int 1 + 1, remark (extracted env0 [row_a, remark_row (of_ascii ''x''), row_b] ! 1))
   \<and> the (song_cache st_ab (name (extracted env0 [row_a, remark_row (of_ascii ''x''), row_b] ! 1))) = 2"
proof -
  let ?songs = "extracted env0 [row_a, remark_row (of_ascii ''x''), row_b]"
  have a: "\<forall>s \<in> set ?songs. truthy_id (song_cache st_ab (name s))"
    unfolding ex_ab by (simp add: st_ab_def truthy_id_def of_ascii_def)
  have b: "1 < length ?songs" unfolding ex_ab by simp
  have c: "\<forall>j'. 1 < j' \<and> j' < length ?songs \<longrightarrow>
           song_cache st_ab (name (?songs ! j')) \<noteq> song_cache st_ab (name (?songs ! 1))"
    unfolding ex_ab by simp
  have d: "the (song_cache st_ab (name (?songs ! 1))) = 2"
    unfolding ex_ab by (simp add: st_ab_def of_ascii_def)
  from position_fidelity[OF refl a b c, of 7] d show ?thesis by blast
qed

subsection \<open>The song cache\<close>

lemma save_song_hit:
  "song_cache st n = Some i \<Longrightarrow> save_song f n u st = (Inr (Some i), st)"
  by (simp add: save_song_def)

lemma save_song_trace: "trace (snd (save_song f n u st)) = trace st"
  by (auto simp: save_song_def Let_def split: option.splits prod.splits)

lemma save_song_write_through:
  assumes "dom (song_cache st) = dom (live_song (store st))" and "live_song_seq (store st) \<noteq> 0"
    and "f \<noteq> CommitFails"
  shows "dom (song_cache (snd (save_song f n u st))) = dom (live_song (store (snd (save_song f n u st))))"
proof (cases "song_cache st n")
  case (Some i)
  then show ?thesis using assms(1) by (simp add: save_song_hit)
next
  case None
  then have "live_song (store st) n = None" using assms(1) by (metis domIff)
  then show ?thesis using None assms
    by (auto simp: save_song_def insert_song_def Let_def)
qed

text \<open>
  Claim C1, at the input where it fails. The store and the cache are empty; the commit
  of the insert of song \<open>A\<close> fails. \<open>save_song\<close> returns \<open>None\<close>, the rollback leaves no
  row for \<open>A\<close> in \<open>live_song\<close>, and the cache, written before the commit, keeps \<open>A\<close> with
  the id the statement returned.
\<close>

theorem save_song_commit_failure:
  "dom (song_cache st_empty) = dom (live_song (store st_empty))
   \<and> fst (save_song CommitFails (of_ascii ''A'') (Some (of_ascii ''/song/a'')) st_empty) = Inr None
   \<and> song_cache (snd (save_song CommitFails (of_ascii ''A'') (Some (of_ascii ''/song/a'')) st_empty))
        (of_ascii ''A'') = Some 1
   \<and> live_song (store (snd (save_song CommitFails (of_ascii ''A'') (Some (of_ascii ''/song/a'')) st_empty)))
        (of_ascii ''A'') = None"
  by (simp add: save_song_def insert_song_def rollback_def st_empty_def empty_db_def Let_def)

text \<open>
  Claim C3 as stated fails: song \<open>A\<close> has a row with one URL and is in the cache; it is
  met again with another URL. \<open>save_song\<close> returns the cached id and the stored URL is
  the old one; the loop of \<open>run\<close> does not even call \<open>save_song\<close> for it.
\<close>

theorem known_song_url_counterexample:
  "save_song NoFault (of_ascii ''A'') (Some (of_ascii ''/song/a2'')) st_known = (Inr (Some 1), st_known)
   \<and> live_song (store st_known) (of_ascii ''A'') = Some (1, Some (of_ascii ''/song/a''))
   \<and> of_ascii ''/song/a'' \<noteq> of_ascii ''/song/a2''
   \<and> save_new_songs no_faults 0 0
        [\<lparr>name = of_ascii ''A'', song_url = of_ascii ''/song/a2'', remark = None\<rparr>] st_known
       = (None, st_known)"
  by (simp add: save_song_def st_known_def of_ascii_def)

text \<open>
  Claim C3 as amended. A song whose name is in the cache keeps its stored URL on a later
  encounter: \<open>save_song\<close> returns the cached id and changes nothing, and the loop of
  \<open>run\<close> skips it. Only for a name that is not in the cache while its row exists does the
  statement replace the URL, returning the id of the row.
\<close>

theorem known_song_amended:
  "(song_cache st n = Some i \<longrightarrow> save_song f n u st = (Inr (Some i), st))
   \<and> (song_cache st (name s) \<noteq> None \<longrightarrow>
        save_new_songs fp e j (s # ss) st = save_new_songs fp e (Suc j) ss st)
   \<and> (song_cache st n = None \<and> live_song (store st) n = Some (i, u0) \<longrightarrow>
        fst (save_song NoFault n u st) = Inr (Some i)
        \<and> live_song (store (snd (save_song NoFault n u st))) = (live_song (store st))(n \<mapsto> (i, u)))"
  by (auto simp: save_song_def insert_song_def Let_def)

theorem known_song_amended_witness:
  "song_cache st_known (of_ascii ''A'') = Some 1
   \<and> save_song NoFault (of_ascii ''A'') (Some (of_ascii ''/song/a2'')) st_known = (Inr (Some 1), st_known)
   \<and> song_cache st_unloaded (of_ascii ''A'') = None
   \<and> live_song (store st_unloaded) (of_ascii ''A'') = Some (1, Some (of_ascii ''/song/a''))
   \<and> fst (save_song NoFault (of_ascii ''A'') (Some (of_ascii ''/song/a2'')) st_unloaded) = Inr (Some 1)
   \<and> live_song (store (snd (save_song NoFault (of_ascii ''A'') (Some (of_ascii ''/song/a2'')) st_unloaded)))
       = (live_song (store st_unloaded))(of_ascii ''A'' \<mapsto> (1, Some (of_ascii ''/song/a2'')))"
proof -
  have a: "song_cache st_known (of_ascii ''A'') = Some 1" by (simp add: st_known_def)
  have b: "song_cache st_unloaded (of_ascii ''A'') = None
      \<and> live_song (store st_unloaded) (of_ascii ''A'') = Some (1, Some (of_ascii ''/song/a''))"
    by (simp add: st_unloaded_def st_known_def)
  from known_song_amended[of st_known "of_ascii ''A''" 1 NoFault "Some (of_ascii ''/song/a2'')"] a
  have 1: "save_song NoFault (of_ascii ''A'') (Some (of_ascii ''/song/a2'')) st_known = (Inr (Some 1), st_known)"
    by blast
  from known_song_amended[of st_unloaded "of_ascii ''A''" 1 _ "Some (of_ascii ''/song/a2'')" _ _ _ _ _
      "Some (of_ascii ''/song/a'')"] b
  have 2: "fst (save_song NoFault (of_ascii ''A'') (Some (of_ascii ''/song/a2'')) st_unloaded) = Inr (Some 1)
   \<and> live_song (store (snd (save_song NoFault (of_ascii ''A'') (Some (of_ascii ''/song/a2'')) st_unloaded)))
       = (live_song (store st_unloaded))(of_ascii ''A'' \<mapsto> (1, Some (of_ascii ''/song/a2'')))"
    by blast
  show ?thesis using a b 1 2 by blast
qed

subsection \<open>The loop of the crawl and its pacing\<close>

lemma store_log_event [simp]: "store (log_event ev st) = store st"
  by (simp add: log_event_def)

lemma song_cache_log_event [simp]: "song_cache (log_event ev st) = song_cache st"
  by (simp add: log_event_def)

lemma trace_log_event [simp]: "trace (log_event ev st) = trace st @ [ev]"
  by (simp add: log_event_def)

lemma save_new_songs_trace: "trace (snd (save_new_songs fp i j songs st)) = trace st"
proof (induction songs arbitrary: j st)
  case Nil
  then show ?case by simp
next
  case (Cons s ss)
  show ?case
  proof (cases "song_cache st (name s) \<noteq> None")
    case True
    then show ?thesis using Cons.IH by simp
  next
    case False
    obtain r st' where r: "save_song (fp (OpSong i j)) (name s) (Some (song_url s)) st = (r, st')"
      by (cases "save_song (fp (OpSong i j)) (name s) (Some (song_url s)) st")
    have t: "trace st' = trace st" using save_song_trace[of "fp (OpSong i j)" "name s" "Some (song_url s)" st] r
      by simp
    show ?thesis using False r t Cons.IH[of "Suc j" st'] by (cases r) auto
  qed
qed

lemma batch_trace: "trace (snd (save_live_song_relations_batch f lid songs st)) = trace st"
  by (simp add: batch_eq)

lemma process_entry_trace:
  assumes "process_entry fp env i live st = Completed st'"
  shows "trace st' = trace st @
     (case fst (save_live_history (fp (OpShow i)) live (store st)) of
        Inr r \<Rightarrow> if truthy_id r then [EntryBegin i, Sleep] else [EntryBegin i]
      | Inl e \<Rightarrow> [EntryBegin i])"
proof -
  obtain res d where sh: "save_live_history (fp (OpShow i)) live (store st) = (res, d)"
    by (cases "save_live_history (fp (OpShow i)) live (store st)")
  show ?thesis
  proof (cases res)
    case (Inl e)
    then show ?thesis using assms sh by (simp add: process_entry_def Let_def)
  next
    case (Inr r)
    let ?st1 = "(log_event (EntryBegin i) st)\<lparr>store := d\<rparr>"
    show ?thesis
    proof (cases "truthy_id r")
      case False
      then show ?thesis using assms sh Inr by (auto simp: process_entry_def Let_def)
    next
      case True
      let ?songs = "get_songs_from_detail_page env (url live)"
      show ?thesis
      proof (cases "?songs = []")
        case True
        then show ?thesis using assms sh Inr \<open>truthy_id r\<close>
          by (auto simp: process_entry_def Let_def)
      next
        case False
        obtain x st2 where s2: "save_new_songs fp i 0 ?songs ?st1 = (x, st2)"
          by (cases "save_new_songs fp i 0 ?songs ?st1")
        obtain y st3 where s3: "save_live_song_relations_batch (fp (OpBatch i)) (the r) ?songs st2 = (y, st3)"
          by (cases "save_live_song_relations_batch (fp (OpBatch i)) (the r) ?songs st2")
        have t2: "trace st2 = trace ?st1" using save_new_songs_trace[of fp i 0 ?songs ?st1] s2 by simp
        have t3: "trace st3 = trace st2"
          using batch_trace[of "fp (OpBatch i)" "the r" ?songs st2] s3 by simp
        have pe: "process_entry fp env i live st =
           (case x of Some e \<Rightarrow> Raised e st2
            | None \<Rightarrow> (case y of Some e \<Rightarrow> Raised e st3 | None \<Rightarrow> Completed (log_event Sleep st3)))"
          using sh Inr True False s2 s3 by (cases x) (simp_all add: process_entry_def Let_def)
        have "st' = log_event Sleep st3"
          using assms pe by (cases x; cases y) auto
        then show ?thesis using t2 t3 sh Inr True by simp
      qed
    qed
  qed
qed

text \<open>
  Claim C2 as stated fails: the save of the first of two shows fails (its statement
  raises, \<open>save_live_history\<close> returns \<open>None\<close>), the loop takes \<open>continue\<close>, and the second
  entry begins with no delay in between; the only delay is the one after the second
  entry.
\<close>

theorem pacing_counterexample:
  "fst (save_live_history (first_show_fails (OpShow 0)) live1 (store st_empty)) = Inr None
   \<and> trace (final_state (run_loop first_show_fails env0 0 [live1, live2] st_empty))
       = [EntryBegin 0, EntryBegin 1, Sleep]"
  by (simp add: first_show_fails_def save_live_history_def insert_show_def process_entry_def
      log_event_def truthy_id_def get_songs_from_detail_page_def env0_def live1_def live2_def
      st_empty_def empty_db_def final_state_def of_ascii_def Let_def)

text \<open>
  Claim C2 as amended. A turn of the loop that completes logs the begin of its entry
  and, exactly when \<open>save_live_history\<close> returned an identity, the delay as its last
  event, whatever the detail page, the songs and the batch did; an entry skipped for a
  missing identity is followed by no delay. The next entry begins in the state the turn
  leaves.
\<close>

theorem pacing_amended:
  "(process_entry fp env i live st = Completed st' \<longrightarrow>
      trace st' = trace st @
        (case fst (save_live_history (fp (OpShow i)) live (store st)) of
           Inr r \<Rightarrow> if truthy_id r then [EntryBegin i, Sleep] else [EntryBegin i]
         | Inl e \<Rightarrow> [EntryBegin i]))
   \<and> (process_entry fp env i live st = Completed st' \<longrightarrow>
        run_loop fp env i (live # rest) st = run_loop fp env (Suc i) rest st')"
  using process_entry_trace[of fp env i live st st'] by simp

theorem pacing_amended_witness:
  "process_entry no_faults env0 0 live1 st_empty
     = Completed (final_state (process_entry no_faults env0 0 live1 st_empty))
   \<and> trace (final_state (process_entry no_faults env0 0 live1 st_empty)) = trace st_empty @ [EntryBegin 0, Sleep]
   \<and> process_entry first_show_fails env0 0 live1 st_empty
     = Completed (final_state (process_entry first_show_fails env0 0 live1 st_empty))
   \<and> trace (final_state (process_entry first_show_fails env0 0 live1 st_empty)) = trace st_empty @ [EntryBegin 0]
   \<and> run_loop first_show_fails env0 0 (live1 # [live2]) st_empty
       = run_loop first_show_fails env0 (Suc 0) [live2] (final_state (process_entry first_show_fails env0 0 live1 st_empty))"
proof -
  have a: "process_entry no_faults env0 0 live1 st_empty
     = Completed (final_state (process_entry no_faults env0 0 live1 st_empty))"
    by (simp add: no_faults_def save_live_history_def insert_show_def process_entry_def
      log_event_def truthy_id_def get_songs_from_detail_page_def env0_def live1_def
      st_empty_def empty_db_def final_state_def of_ascii_def Let_def)
  have b: "process_entry first_show_fails env0 0 live1 st_empty
     = Completed (final_state (process_entry first_show_fails env0 0 live1 st_empty))"
    by (simp add: first_show_fails_def save_live_history_def insert_show_def process_entry_def
      log_event_def truthy_id_def get_songs_from_detail_page_def env0_def live1_def
      st_empty_def empty_db_def final_state_def of_ascii_def Let_def)
  have c: "fst (save_live_history (no_faults (OpShow 0)) live1 (store st_empty)) = Inr (Some 1)"
    by (simp add: no_faults_def save_live_history_def insert_show_def st_empty_def empty_db_def Let_def)
  have d: "fst (save_live_history (first_show_fails (OpShow 0)) live1 (store st_empty)) = Inr None"
    by (simp add: first_show_fails_def save_live_history_def)
  from pacing_amended[of no_faults env0 0 live1 st_empty
      "final_state (process_entry no_faults env0 0 live1 st_empty)"] a c
  have 1: "trace (final_state (process_entry no_faults env0 0 live1 st_empty)) = trace st_empty @ [EntryBegin 0, Sleep]"
    by (simp add: truthy_id_def)
  from pacing_amended[of first_show_fails env0 0 live1 st_empty
      "final_state (process_entry first_show_fails env0 0 live1 st_empty)" "[live2]"] b d
  have 2: "trace (final_state (process_entry first_show_fails env0 0 live1 st_empty)) = trace st_empty @ [EntryBegin 0]
    \<and> run_loop first_show_fails env0 0 (live1 # [live2]) st_empty
       = run_loop first_show_fails env0 (Suc 0) [live2] (final_state (process_entry first_show_fails env0 0 live1 st_empty))"
    by (simp add: truthy_id_def)
  show ?thesis using a b 1 2 by blast
qed

subsection \<open>Runs without faults\<close>







lemma cache_inv_cong:
  "song_cache st' = song_cache st \<Longrightarrow> live_song (store st') = live_song (store st)
   \<Longrightarrow> live_song_seq (store st') = live_song_seq (store st) \<Longrightarrow> cache_inv st \<Longrightarrow> cache_inv st'"
  by (simp add: cache_inv_def)


subsection \<open>Replaying the writes of a run\<close>












subsection \<open>The loop without faults\<close>




subsection \<open>Running the crawl twice\<close>





subsection \<open>Ids in runs without faults\<close>





subsection \<open>A detail page that cannot be fetched\<close>











end
